theory Spec2Isabelle
  imports Complex_Main
begin

section \<open>Python values\<close>

text \<open>
  The repository is a retrieval pipeline written in Python (\<^verbatim>\<open>src/app.py\<close>): files are
  listed and downloaded from a file-storage account, cut into chunks, embedded, averaged and
  upserted into a vector store; a query is embedded, searched and answered by a generative
  model. Every external SDK call is a parameter of the model; everything the code itself
  computes is a definition below.

  A Python exception is a value: its class name and its message. A function that can raise
  returns \<open>exn + 'a\<close>, with \<open>Inl\<close> for the exception. Only subclasses of
  \<^verbatim>\<open>Exception\<close> are modelled (an interrupt of the process is not).
\<close>

datatype exn = PyException string string

text \<open>
  \<^verbatim>\<open>range(start, stop, step)\<close>: an ascending walk for a positive step, a descending one
  for a negative step, \<^verbatim>\<open>ValueError\<close> for step 0.
\<close>

function py_range_up :: "int \<Rightarrow> int \<Rightarrow> int \<Rightarrow> int list" where
  "py_range_up i stop step = (if 0 < step \<and> i < stop then i # py_range_up (i + step) stop step else [])"
  by pat_completeness auto
termination
  by (relation "measure (\<lambda>(i, stop, step). nat (stop - i))") auto

function py_range_down :: "int \<Rightarrow> int \<Rightarrow> int \<Rightarrow> int list" where
  "py_range_down i stop step = (if step < 0 \<and> stop < i then i # py_range_down (i + step) stop step else [])"
  by pat_completeness auto
termination
  by (relation "measure (\<lambda>(i, stop, step). nat (i - stop))") auto

definition py_range :: "int \<Rightarrow> int \<Rightarrow> int \<Rightarrow> exn + int list" where
  "py_range start stop step =
     (if step = 0 then Inl (PyException ''ValueError'' ''range() arg 3 must not be zero'')
      else if 0 < step then Inr (py_range_up start stop step)
      else Inr (py_range_down start stop step))"

text \<open>
  \<^verbatim>\<open>xs[i:j]\<close>: a negative index counts from the end, and both indices are clamped to
  the length, so a slice never raises.
\<close>

definition py_clamp :: "nat \<Rightarrow> int \<Rightarrow> nat" where
  "py_clamp n i = (if i < 0 then nat (max 0 (int n + i)) else min n (nat i))"

definition py_slice :: "'a list \<Rightarrow> int \<Rightarrow> int \<Rightarrow> 'a list" where
  "py_slice xs i j = (let a = py_clamp (length xs) i; b = py_clamp (length xs) j in take (b - a) (drop a xs))"

text \<open>
  \<^verbatim>\<open>chunk_text\<close> (app.py, lines 74-75):
  \<^verbatim>\<open>[text[i:i+max_chars] for i in range(0, len(text), max_chars)]\<close>.
  The text is a list of characters of any type: \<^verbatim>\<open>len\<close> counts characters.
\<close>

definition chunk_text :: "'a list \<Rightarrow> int \<Rightarrow> exn + 'a list list" where
  "chunk_text text max_chars =
     (case py_range 0 (int (length text)) max_chars of
        Inl e \<Rightarrow> Inl e
      | Inr is \<Rightarrow> Inr (map (\<lambda>i. py_slice text i (i + max_chars)) is))"

subsection \<open>Strings\<close>

text \<open>
  A Python \<^verbatim>\<open>str\<close> is a \<open>string\<close>, one \<open>char\<close> for each character; the characters of
  HOL are the code points below 256. \<^verbatim>\<open>str.strip()\<close> removes the characters for which
  \<^verbatim>\<open>str.isspace\<close> holds from both ends; below 256 these are the twelve code points listed.
\<close>

definition isspace :: "char \<Rightarrow> bool" where
  "isspace c = (of_char c \<in> set [9, 10, 11, 12, 13, 28, 29, 30, 31, 32, 133, 160 :: nat])"

definition strip :: "string \<Rightarrow> string" where
  "strip s = rev (dropWhile isspace (rev (dropWhile isspace s)))"

definition startswith :: "string \<Rightarrow> string \<Rightarrow> bool" where
  "startswith s p = (take (length p) s = p)"

type_synonym bytes = "char list"

subsection \<open>NumPy arrays\<close>

text \<open>
  A one-dimensional array of doubles is a list of reals: every finite double is a real
  number. NumPy computes with the rounded operations of IEEE 754, which are not the
  operations of the reals (the rounded addition is not associative, for one). So the
  addition and the division that \<^verbatim>\<open>np.mean\<close> uses are parameters of the model, \<open>fadd\<close> and
  \<open>fdiv\<close>, of which nothing is assumed. \<^verbatim>\<open>np.mean(vs, axis=0)\<close> adds the rows from the first
  to the last and divides every component by the number of rows; it raises
  \<^verbatim>\<open>ValueError\<close> when the rows differ in length (NumPy 1.24 and later). The zero vector and
  the comparison with zero need no arithmetic. Infinities and NaN are not real numbers:
  the model covers the runs in which the vectors stay finite, and says nothing on what is
  equal to what among rounded results. On the empty list NumPy yields NaN: the model
  raises there, and \<open>process_item\<close> below never calls it on the empty list.
\<close>

type_synonym vector = "real list"

definition np_zeros :: "nat \<Rightarrow> vector" where
  "np_zeros n = replicate n 0"

definition np_all_zero :: "vector \<Rightarrow> bool" where
  "np_all_zero v = list_all (\<lambda>x. x = 0) v"

definition np_add :: "(real \<Rightarrow> real \<Rightarrow> real) \<Rightarrow> vector \<Rightarrow> vector \<Rightarrow> vector" where
  "np_add fadd v w = map2 fadd v w"

definition np_mean_axis0 ::
  "(real \<Rightarrow> real \<Rightarrow> real) \<Rightarrow> (real \<Rightarrow> real \<Rightarrow> real) \<Rightarrow> vector list \<Rightarrow> exn + vector" where
  "np_mean_axis0 fadd fdiv vs =
     (case vs of
        [] \<Rightarrow> Inl (PyException ''ValueError'' ''mean of empty sequence'')
      | v # ws \<Rightarrow>
          if \<exists>w \<in> set ws. length w \<noteq> length v
          then Inl (PyException ''ValueError'' ''inhomogeneous shape'')
          else Inr (map (\<lambda>x. fdiv x (real (length vs))) (foldl (np_add fadd) v ws)))"

section \<open>External services\<close>

text \<open>
  The file storage, the embedding and generation models and the vector store are outside
  the repository. Each SDK call of the source is a field of the record \<open>services\<close>: a
  function of the request and of the state \<open>'w\<close> of the outside world that returns a
  value or an exception, and the next state of the world. A call that never returns is
  not modelled, with one exception: the download loop of \<open>read_file\<close>, which asks the
  downloader for the next chunk until it reports that it is done.

  An item of the listing is a dictionary; a key that is absent is \<open>None\<close>.
  \<open>py_hash\<close> is the builtin \<^verbatim>\<open>hash\<close> of the running interpreter on strings. CPython salts
  it with a secret drawn when the process starts (\<^verbatim>\<open>PYTHONHASHSEED\<close>), so it is a parameter
  of the process, fixed during a run and different from one process to the next.
  \<open>float_add\<close> and \<open>float_div\<close> are the addition and the division of doubles of the
  machine, the two operations that \<^verbatim>\<open>np.mean\<close> applies.
\<close>

record drive_item =
  item_id :: "string option"
  item_name :: "string option"
  item_mimeType :: "string option"

record list_request =
  pageSize :: nat
  fieldMask :: string
  q :: string
  pageToken :: "string option"

record list_response =
  files :: "drive_item list option"
  nextPageToken :: "string option"

datatype media_request = ExportMedia string string | GetMedia string

record point =
  point_id :: int
  point_vector :: vector
  payload_name :: string
  payload_content :: string

record scored_point =
  hit_id :: int
  hit_score :: real
  hit_name :: string
  hit_content :: string

datatype gen_response = NoTextAttr | TextRaises exn | Text string

datatype call =
    FilesList list_request
  | NextChunk media_request
  | EmbedContent string string string
  | Upsert string "point list"
  | Search string vector int
  | GenerateContent string string

record 'w services =
  files_list :: "list_request \<Rightarrow> 'w \<Rightarrow> (exn + list_response) \<times> 'w"
  next_chunk :: "media_request \<Rightarrow> 'w \<Rightarrow> (exn + bytes \<times> bool) \<times> 'w"
  decode_utf8_ignore :: "bytes \<Rightarrow> string"
  embed_content :: "string \<Rightarrow> string \<Rightarrow> string \<Rightarrow> 'w \<Rightarrow> (exn + vector) \<times> 'w"
  py_hash :: "string \<Rightarrow> int"
  upsert :: "string \<Rightarrow> point list \<Rightarrow> 'w \<Rightarrow> (exn + unit) \<times> 'w"
  search :: "string \<Rightarrow> vector \<Rightarrow> int \<Rightarrow> 'w \<Rightarrow> (exn + scored_point list) \<times> 'w"
  generate_content :: "string \<Rightarrow> string \<Rightarrow> 'w \<Rightarrow> (exn + gen_response) \<times> 'w"
  float_add :: "real \<Rightarrow> real \<Rightarrow> real"
  float_div :: "real \<Rightarrow> real \<Rightarrow> real"

text \<open>
  What the program prints, one constructor for each \<^verbatim>\<open>print\<close> of app.py that the
  functions below reach, with the values that the message interpolates.
\<close>

datatype message =
    EmbeddingError exn
  | ErrorReadingFile string exn
  | Processing nat nat string
  | SkippingNoId string
  | SkippingSmallFile string
  | NoValidEmbeddings string
  | Processed string
  | ErrorProcessingFiles exn
  | InvalidQueryEmbedding
  | SearchError exn
  | ErrorGeneratingAnswer exn

text \<open>
  The state threaded through the program: the outside world, what was printed so far, and
  the trace of the requests sent to the services, in order (a record of what happened; no
  function reads it).
\<close>

record 'w state =
  world :: 'w
  stdout :: "message list"
  calls :: "call list"

definition py_print :: "message \<Rightarrow> 'w state \<Rightarrow> 'w state" where
  "py_print m s = s\<lparr>stdout := stdout s @ [m]\<rparr>"

definition request :: "call \<Rightarrow> ('w \<Rightarrow> 'r \<times> 'w) \<Rightarrow> 'w state \<Rightarrow> 'r \<times> 'w state" where
  "request c f s = (case f (world s) of (r, w') \<Rightarrow> (r, s\<lparr>world := w', calls := calls s @ [c]\<rparr>))"

section \<open>app.py\<close>

definition COLLECTION_NAME :: string where
  "COLLECTION_NAME = ''drive_docs''"

definition VECTOR_SIZE :: nat where
  "VECTOR_SIZE = 768"

text \<open>
  \<^verbatim>\<open>get_embedding\<close> (lines 62-72). The function returns an array on both paths, never
  \<^verbatim>\<open>None\<close>; the result is an option so that the test \<^verbatim>\<open>embedding is not None\<close> of the indexer
  can be written as the source has it.
\<close>

definition get_embedding :: "'w services \<Rightarrow> string \<Rightarrow> 'w state \<Rightarrow> vector option \<times> 'w state" where
  "get_embedding env text s =
     (case request (EmbedContent ''models/text-embedding-004'' text ''retrieval_document'')
             (embed_content env ''models/text-embedding-004'' text ''retrieval_document'') s of
        (Inr v, s') \<Rightarrow> (Some v, s')
      | (Inl e, s') \<Rightarrow> (Some (np_zeros VECTOR_SIZE), py_print (EmbeddingError e) s'))"

text \<open>
  \<^verbatim>\<open>read_file\<close> (lines 77-92). The loop \<^verbatim>\<open>while not done: _, done = downloader.next_chunk()\<close>
  runs as long as the downloader does not report the end: \<open>download\<close> is \<open>None\<close> when it
  never does. Each step appends the bytes it received to the buffer \<^verbatim>\<open>fh\<close>.
  \<open>media_request_for\<close> is the choice between an export and a plain download (lines 79-82).
\<close>

partial_function (option) download ::
  "'w services \<Rightarrow> media_request \<Rightarrow> bytes \<Rightarrow> 'w state \<Rightarrow> ((exn + bytes) \<times> 'w state) option" where
  "download env req fh s =
     (case request (NextChunk req) (next_chunk env req) s of
        (Inl e, s') \<Rightarrow> Some (Inl e, s')
      | (Inr (data, fin), s') \<Rightarrow>
          if fin then Some (Inr (fh @ data), s') else download env req (fh @ data) s')"

definition media_request_for :: "string \<Rightarrow> string \<Rightarrow> media_request" where
  "media_request_for file_id mime_type =
     (if startswith mime_type ''application/vnd.google-apps''
      then ExportMedia file_id ''text/plain'' else GetMedia file_id)"

definition read_file :: "'w services \<Rightarrow> string \<Rightarrow> string \<Rightarrow> 'w state \<Rightarrow> (string \<times> 'w state) option" where
  "read_file env file_id mime_type s =
     (let req = media_request_for file_id mime_type
      in case download env req [] s of
           None \<Rightarrow> None
         | Some (Inr data, s') \<Rightarrow> Some (strip (decode_utf8_ignore env data), s')
         | Some (Inl e, s') \<Rightarrow> Some ([], py_print (ErrorReadingFile file_id e) s'))"

text \<open>
  \<^verbatim>\<open>process_drive_files\<close> (lines 94-162). \<open>embed_chunks\<close> is the inner loop (lines
  130-134), \<open>compute_point_id\<close> is line 141, \<open>process_item\<close> is the body of the loop over
  the items (lines 113-158, where \<open>Inr ()\<close> stands for going on to the next item, by
  \<^verbatim>\<open>continue\<close> or at the end of the body), \<open>process_items\<close> is the loop, and
  \<open>process_drive_files\<close> is the listing, the loop and the handler that prints and raises
  again (lines 160-162). \<open>file_name_of\<close> is \<^verbatim>\<open>item.get("name", "unnamed")\<close> and
  \<open>point_struct\<close> is the point built in lines 143-152 and \<open>listed_files\<close> is
  \<^verbatim>\<open>results.get("files", [])\<close>. The listing is requested once, with a page size of 100 and
  without page token; the field mask of the request leaves the token of the next page out
  of the response, and the code does not read it.
\<close>

definition allowed_types :: "string list" where
  "allowed_types =
     [''application/vnd.google-apps.document'',
      ''application/vnd.google-apps.spreadsheet'',
      ''application/vnd.google-apps.presentation'',
      ''application/pdf'',
      ''application/vnd.openxmlformats-officedocument.wordprocessingml.document'',
      ''text/plain'']"

fun embed_chunks :: "'w services \<Rightarrow> string list \<Rightarrow> vector list \<Rightarrow> 'w state \<Rightarrow> vector list \<times> 'w state" where
  "embed_chunks env [] embeddings s = (embeddings, s)"
| "embed_chunks env (chunk # chunks) embeddings s =
     (case get_embedding env chunk s of
        (Some embedding, s') \<Rightarrow> embed_chunks env chunks (embeddings @ [embedding]) s'
      | (None, s') \<Rightarrow> embed_chunks env chunks embeddings s')"

definition compute_point_id :: "(string \<Rightarrow> int) \<Rightarrow> string \<Rightarrow> int" where
  "compute_point_id hash file_id = \<bar>hash file_id\<bar> mod 10 ^ 18"

definition file_name_of :: "drive_item \<Rightarrow> string" where
  "file_name_of item = (case item_name item of None \<Rightarrow> ''unnamed'' | Some n \<Rightarrow> n)"

definition point_struct :: "(string \<Rightarrow> int) \<Rightarrow> string \<Rightarrow> string \<Rightarrow> string \<Rightarrow> vector \<Rightarrow> point" where
  "point_struct hash file_id file_name content avg_embedding =
     \<lparr>point_id = compute_point_id hash file_id,
      point_vector = avg_embedding,
      payload_name = file_name,
      payload_content = py_slice content 0 3000\<rparr>"

definition process_item ::
  "'w services \<Rightarrow> nat \<Rightarrow> nat \<Rightarrow> drive_item \<Rightarrow> 'w state \<Rightarrow> ((exn + unit) \<times> 'w state) option" where
  "process_item env n_items idx item s =
     (case item_mimeType item of
        None \<Rightarrow> Some (Inr (), s)
      | Some mime_type \<Rightarrow>
          if mime_type \<notin> set allowed_types then Some (Inr (), s)
          else
            let file_name = file_name_of item;
                s1 = py_print (Processing idx n_items file_name) s
            in case item_id item of
                 None \<Rightarrow> Some (Inr (), py_print (SkippingNoId file_name) s1)
               | Some file_id \<Rightarrow>
                   if file_id = [] then Some (Inr (), py_print (SkippingNoId file_name) s1)
                   else
                     case read_file env file_id mime_type s1 of
                       None \<Rightarrow> None
                     | Some (content, s2) \<Rightarrow>
                         if length content < 20
                         then Some (Inr (), py_print (SkippingSmallFile file_name) s2)
                         else
                           case chunk_text content 30000 of
                             Inl e \<Rightarrow> Some (Inl e, s2)
                           | Inr chunks \<Rightarrow>
                               case embed_chunks env chunks [] s2 of
                                 (embeddings, s3) \<Rightarrow>
                                   if embeddings = []
                                   then Some (Inr (), py_print (NoValidEmbeddings file_name) s3)
                                   else
                                     case np_mean_axis0 (float_add env) (float_div env) embeddings of
                                       Inl e \<Rightarrow> Some (Inl e, s3)
                                     | Inr avg_embedding \<Rightarrow>
                                         let points =
                                               [point_struct (py_hash env) file_id file_name
                                                  content avg_embedding]
                                         in case request (Upsert COLLECTION_NAME points)
                                                   (upsert env COLLECTION_NAME points) s3 of
                                              (Inl e, s4) \<Rightarrow> Some (Inl e, s4)
                                            | (Inr u, s4) \<Rightarrow> Some (Inr (), py_print (Processed file_name) s4))"

fun process_items ::
  "'w services \<Rightarrow> nat \<Rightarrow> nat \<Rightarrow> drive_item list \<Rightarrow> 'w state \<Rightarrow> ((exn + unit) \<times> 'w state) option" where
  "process_items env n_items idx [] s = Some (Inr (), s)"
| "process_items env n_items idx (item # items) s =
     (case process_item env n_items idx item s of
        None \<Rightarrow> None
      | Some (Inl e, s') \<Rightarrow> Some (Inl e, s')
      | Some (Inr u, s') \<Rightarrow> process_items env n_items (Suc idx) items s')"

definition list_files_request :: list_request where
  "list_files_request = \<lparr>pageSize = 100, fieldMask = ''files(id, name, mimeType)'', q = ''trashed=false'', pageToken = None\<rparr>"

definition listed_files :: "list_response \<Rightarrow> drive_item list" where
  "listed_files results = (case files results of None \<Rightarrow> [] | Some fs \<Rightarrow> fs)"

definition process_drive_files :: "'w services \<Rightarrow> 'w state \<Rightarrow> ((exn + unit) \<times> 'w state) option" where
  "process_drive_files env s =
     (case request (FilesList list_files_request) (files_list env list_files_request) s of
        (Inl e, s1) \<Rightarrow> Some (Inl e, py_print (ErrorProcessingFiles e) s1)
      | (Inr results, s1) \<Rightarrow>
          let items = listed_files results
          in case process_items env (length items) 1 items s1 of
               None \<Rightarrow> None
             | Some (Inl e, s2) \<Rightarrow> Some (Inl e, py_print (ErrorProcessingFiles e) s2)
             | Some (Inr u, s2) \<Rightarrow> Some (Inr (), s2))"

text \<open>\<^verbatim>\<open>search_qdrant\<close> (lines 164-180); \<^verbatim>\<open>top_k\<close> is 3 when the caller gives none.\<close>

definition search_qdrant ::
  "'w services \<Rightarrow> string \<Rightarrow> int \<Rightarrow> 'w state \<Rightarrow> scored_point list \<times> 'w state" where
  "search_qdrant env query top_k s =
     (case get_embedding env query s of
        (None, s1) \<Rightarrow> ([], py_print InvalidQueryEmbedding s1)
      | (Some query_embedding, s1) \<Rightarrow>
          if np_all_zero query_embedding then ([], py_print InvalidQueryEmbedding s1)
          else
            case request (Search COLLECTION_NAME query_embedding top_k)
                   (search env COLLECTION_NAME query_embedding top_k) s1 of
              (Inr search_result, s2) \<Rightarrow> (search_result, s2)
            | (Inl e, s2) \<Rightarrow> ([], py_print (SearchError e) s2))"

definition search_qdrant_default :: "'w services \<Rightarrow> string \<Rightarrow> 'w state \<Rightarrow> scored_point list \<times> 'w state" where
  "search_qdrant_default env query s = search_qdrant env query 3 s"

text \<open>
  \<^verbatim>\<open>generate_answer\<close> (lines 182-201). \<open>prompt\<close> is the f-string of lines 185-193. The test
  \<^verbatim>\<open>hasattr(response, "text")\<close> reads the attribute: it is false when the attribute is
  missing (\<open>NoTextAttr\<close>) and when reading it raises \<^verbatim>\<open>AttributeError\<close>, and then the function
  returns the fallback string and prints nothing; any other exception of the read goes on
  to the handler of line 199. An exception is known by the name of its class: one whose
  class derives from \<^verbatim>\<open>AttributeError\<close> is given under that name.
\<close>

definition is_attribute_error :: "exn \<Rightarrow> bool" where
  "is_attribute_error e = (case e of PyException cls msg \<Rightarrow> cls = ''AttributeError'')"

definition prompt :: "string \<Rightarrow> string \<Rightarrow> string" where
  "prompt context query =
     [CHR 0x0A] @ ''Based on the following context, answer the question clearly and precisely.'' @
     [CHR 0x0A] @ ''If the answer is not found in the context, say that the information is not available.'' @
     [CHR 0x0A, CHR 0x0A] @ ''Context:'' @
     [CHR 0x0A] @ context @
     [CHR 0x0A, CHR 0x0A] @ ''Question: '' @ query @ [CHR 0x0A]"

definition generate_answer :: "'w services \<Rightarrow> string \<Rightarrow> string \<Rightarrow> 'w state \<Rightarrow> string \<times> 'w state" where
  "generate_answer env query context s =
     (let p = prompt (py_slice context 0 8000) query
      in case request (GenerateContent ''gemini-2.5-flash-lite'' p)
                (generate_content env ''gemini-2.5-flash-lite'' p) s of
           (Inl e, s') \<Rightarrow>
             (''An error occurred while generating the answer.'', py_print (ErrorGeneratingAnswer e) s')
         | (Inr NoTextAttr, s') \<Rightarrow> (''Could not generate a clear answer.'', s')
         | (Inr (TextRaises e), s') \<Rightarrow>
             if is_attribute_error e then (''Could not generate a clear answer.'', s')
             else (''An error occurred while generating the answer.'',
                   py_print (ErrorGeneratingAnswer e) s')
         | (Inr (Text t), s') \<Rightarrow>
             if strip t \<noteq> [] then (strip t, s') else (''Could not generate a clear answer.'', s'))"

section \<open>Reading the trace\<close>

text \<open>
  The requests that a run added to the trace, and what kind of request each one is: a
  listing, a step of a download, an embedding, an upsert.
\<close>

definition new_calls :: "'w state \<Rightarrow> 'w state \<Rightarrow> call list" where
  "new_calls s s' = drop (length (calls s)) (calls s')"

fun is_list :: "call \<Rightarrow> bool" where
  "is_list (FilesList r) = True"
| "is_list c = False"

fun is_fetch :: "call \<Rightarrow> bool" where
  "is_fetch (NextChunk r) = True"
| "is_fetch c = False"

fun is_embed :: "call \<Rightarrow> bool" where
  "is_embed (EmbedContent m c t) = True"
| "is_embed c = False"

fun is_upsert :: "call \<Rightarrow> bool" where
  "is_upsert (Upsert c ps) = True"
| "is_upsert c = False"

fun request_file_id :: "media_request \<Rightarrow> string" where
  "request_file_id (ExportMedia file_id mime_type) = file_id"
| "request_file_id (GetMedia file_id) = file_id"

section \<open>Test doubles\<close>

text \<open>
  Stand-ins for the services, used to run the program on concrete inputs. In
  \<open>offline_services\<close> every call raises; the examples below switch single services on.
  Their world has one state, and bytes decode to themselves (ASCII content). Their
  arithmetic is the exact one: the examples average zero vectors only, and a sum of
  zeros divided by a count is zero in the doubles as well.
\<close>

definition failing :: "'w \<Rightarrow> (exn + 'a) \<times> 'w" where
  "failing w = (Inl (PyException ''RuntimeError'' ''service unavailable''), w)"

definition offline_services :: "unit services" where
  "offline_services =
     \<lparr>files_list = (\<lambda>r. failing), next_chunk = (\<lambda>r. failing), decode_utf8_ignore = (\<lambda>b. b),
      embed_content = (\<lambda>m c t. failing), py_hash = (\<lambda>k. 0),
      upsert = (\<lambda>c ps. failing), search = (\<lambda>c v k. failing),
      generate_content = (\<lambda>m p. failing),
      float_add = (\<lambda>x y. x + y), float_div = (\<lambda>x y. x / y)\<rparr>"

definition initial_state :: "unit state" where
  "initial_state = \<lparr>world = (), stdout = [], calls = []\<rparr>"

definition embedding_services :: "vector \<Rightarrow> unit services" where
  "embedding_services v = offline_services\<lparr>embed_content := (\<lambda>m c t w. (Inr v, w))\<rparr>"

definition searchable_services :: "vector \<Rightarrow> scored_point list \<Rightarrow> unit services" where
  "searchable_services v hits =
     (embedding_services v)\<lparr>search := (\<lambda>c qv k w. (Inr (take (nat k) hits), w))\<rparr>"

definition four_hits :: "scored_point list" where
  "four_hits =
     [\<lparr>hit_id = 11, hit_score = 0.9, hit_name = ''a.txt'', hit_content = ''alpha''\<rparr>,
      \<lparr>hit_id = 12, hit_score = 0.7, hit_name = ''b.txt'', hit_content = ''beta''\<rparr>,
      \<lparr>hit_id = 13, hit_score = 0.5, hit_name = ''c.txt'', hit_content = ''gamma''\<rparr>,
      \<lparr>hit_id = 14, hit_score = 0.3, hit_name = ''d.txt'', hit_content = ''delta''\<rparr>]"

definition generating_services :: "gen_response \<Rightarrow> unit services" where
  "generating_services r = offline_services\<lparr>generate_content := (\<lambda>m p w. (Inr r, w))\<rparr>"

text \<open>
  The contract of the vector store that the query engine relies on: a search answers with
  at most \<^verbatim>\<open>limit\<close> hits.
\<close>

definition search_honours_limit :: "'w services \<Rightarrow> bool" where
  "search_honours_limit env =
     (\<forall>c v k w r. 0 \<le> k \<and> fst (search env c v k w) = Inr r \<longrightarrow> int (length r) \<le> k)"

text \<open>
  A drive with the given items, whose listing answers with one page of at most
  \<^verbatim>\<open>pageSize\<close> items, and whose downloads deliver the content of a file in one chunk, or
  raise for a file without content. \<open>indexing_services\<close> adds an embedding model given as a
  table (a text without entry raises) and a vector store that accepts every upsert.
\<close>

definition drive_services :: "drive_item list \<Rightarrow> (string \<Rightarrow> bytes option) \<Rightarrow> unit services" where
  "drive_services items content =
     offline_services
       \<lparr>files_list := (\<lambda>r w.
          (Inr \<lparr>files = Some (take (pageSize r) items),
                nextPageToken = (if pageSize r < length items then Some ''page-2'' else None)\<rparr>, w)),
        next_chunk := (\<lambda>r w.
          case content (request_file_id r) of
            None \<Rightarrow> failing w
          | Some b \<Rightarrow> (Inr (b, True), w))\<rparr>"

definition indexing_services ::
  "drive_item list \<Rightarrow> (string \<Rightarrow> bytes option) \<Rightarrow> (string \<Rightarrow> vector option) \<Rightarrow> unit services" where
  "indexing_services items content model =
     (drive_services items content)
       \<lparr>embed_content := (\<lambda>m c t w. case model c of None \<Rightarrow> failing w | Some v \<Rightarrow> (Inr v, w)),
        upsert := (\<lambda>c ps w. (Inr (), w))\<rparr>"

definition text_file :: "string \<Rightarrow> string \<Rightarrow> drive_item" where
  "text_file file_id name = \<lparr>item_id = Some file_id, item_name = Some name, item_mimeType = Some ''text/plain''\<rparr>"

definition image_file :: "string \<Rightarrow> string \<Rightarrow> drive_item" where
  "image_file file_id name = \<lparr>item_id = Some file_id, item_name = Some name, item_mimeType = Some ''image/png''\<rparr>"

text \<open>
  A text of 30020 characters, which the indexer cuts into two chunks.
\<close>

definition long_text :: string where
  "long_text = replicate 30000 (CHR ''a'') @ replicate 20 (CHR ''b'')"

text \<open>
  The document of the end-to-end scenario of the specification, and an embedding model
  that is down: every embedding call raises.
\<close>

definition hello_text :: string where
  "hello_text = ''Hello world, this is a test document with enough content to pass the minimum length check.''"

definition no_model :: "string \<Rightarrow> vector option" where
  "no_model c = None"

section \<open>Conditions on the services\<close>

text \<open>
  A file is eligible when its type is in the allow-list and it has a non-empty identifier.
  The three conditions under which a pass cannot raise after the listing: the store
  accepts every upsert, the embedding model answers with vectors of \<open>VECTOR_SIZE\<close>
  components (so that they can be averaged with the zero vectors of failed calls), and
  every download comes to an end, by completing or by raising.
\<close>

definition eligible :: "drive_item \<Rightarrow> bool" where
  "eligible item =
     (\<exists>m fid. item_mimeType item = Some m \<and> m \<in> set allowed_types \<and> item_id item = Some fid \<and> fid \<noteq> [])"

definition upserts_succeed :: "'w services \<Rightarrow> bool" where
  "upserts_succeed env = (\<forall>c ps w. \<exists>u. fst (upsert env c ps w) = Inr u)"

definition embeddings_sized :: "'w services \<Rightarrow> bool" where
  "embeddings_sized env =
     (\<forall>m c t w v. fst (embed_content env m c t w) = Inr v \<longrightarrow> length v = VECTOR_SIZE)"

definition downloads_end :: "'w services \<Rightarrow> bool" where
  "downloads_end env = (\<forall>req fh s. download env req fh s \<noteq> None)"

text \<open>
  The builtin \<^verbatim>\<open>hash\<close> of two interpreter processes, as far as the examples need it: the
  values that CPython 3.11 gives for \<^verbatim>\<open>hash('abc')\<close> when it is started with
  \<^verbatim>\<open>PYTHONHASHSEED=1\<close> and with \<^verbatim>\<open>PYTHONHASHSEED=2\<close>.
\<close>

definition hash_of_process_1 :: "string \<Rightarrow> int" where
  "hash_of_process_1 = (\<lambda>k. 0)(''abc'' := - 4667308735975688587)"

definition hash_of_process_2 :: "string \<Rightarrow> int" where
  "hash_of_process_2 = (\<lambda>k. 0)(''abc'' := 4069345407874332860)"

text \<open>
  An account with 101 text files: one hundred copies of a file with identifier \<open>a\<close>, then
  the file \<open>z\<close>, whose content is the document of the scenario.
\<close>

definition big_account :: "drive_item list" where
  "big_account = replicate 100 (text_file ''a'' ''a.txt'') @ [text_file ''z'' ''z.txt'']"

text \<open>
  The same services with a vector store that is down: every upsert raises.
\<close>

definition rejecting_store_services ::
  "drive_item list \<Rightarrow> (string \<Rightarrow> bytes option) \<Rightarrow> (string \<Rightarrow> vector option) \<Rightarrow> unit services" where
  "rejecting_store_services items content model =
     (indexing_services items content model)\<lparr>upsert := (\<lambda>c ps. failing)\<rparr>"

section \<open>The chunker\<close>

declare py_range_up.simps [simp del]
declare py_range_down.simps [simp del]

lemma div_eq_one: 
  assumes "0 < (step::int)" "step \<le> x" "x < 2 * step" shows "x div step = 1"
proof -
  have "x div step = ((x - step) + step) div step" by simp
  also have "\<dots> = (x - step) div step + 1"
    using assms(1) by (subst div_add_self2) simp_all
  also have "(x - step) div step = 0"
    using assms by (intro div_pos_pos_trivial) simp_all
  finally show ?thesis by simp
qed

lemma ceil_div_int:
  assumes "0 < (m::int)" shows "(n + m - 1) div m = - ((- n) div m)"
proof -
  define q where "q = n div m"
  define r where "r = n mod m"
  have n: "n = r + q * m" by (simp add: q_def r_def)
  have r: "0 \<le> r" "r < m" using assms by (simp_all add: r_def)
  have "(n + m - 1) div m = (r + m - 1 + q * m) div m"
    by (simp add: n algebra_simps)
  also have "\<dots> = (r + m - 1) div m + q"
    using assms by (subst div_mult_self1) simp_all
  finally have lhs: "(n + m - 1) div m = (r + m - 1) div m + q" .
  have rhs: "- ((- n) div m) = (if r = 0 then q else q + 1)"
    using assms by (simp add: zdiv_zminus1_eq_if q_def r_def)
  show ?thesis
  proof (cases "r = 0")
    case True
    then have "(r + m - 1) div m = 0"
      using assms by (intro div_pos_pos_trivial) simp_all
    with lhs rhs True show ?thesis by simp
  next
    case False
    then have "(r + m - 1) div m = 1"
      using assms r by (intro div_eq_one) simp_all
    with lhs rhs False show ?thesis by simp
  qed
qed

lemma py_slice_nonneg:
  "0 \<le> i \<Longrightarrow> 0 < m \<Longrightarrow> py_slice xs i (i + m) = take (nat m) (drop (nat i) xs)"
  by (auto simp: py_slice_def py_clamp_def Let_def min_def nat_add_distrib)

lemma concat_slices_up:
  "0 < m \<Longrightarrow> 0 \<le> i \<Longrightarrow>
   concat (map (\<lambda>i. py_slice xs i (i + m)) (py_range_up i (int (length xs)) m)) = drop (nat i) xs"
proof (induction i "int (length xs)" m rule: py_range_up.induct)
  case (1 i step)
  show ?case
  proof (cases "i < int (length xs)")
    case True
    have d: "drop (nat (i + step)) xs = drop (nat step) (drop (nat i) xs)"
      using 1(2,3) by (simp add: nat_add_distrib add.commute)
    have "concat (map (\<lambda>i. py_slice xs i (i + step)) (py_range_up i (int (length xs)) step))
        = py_slice xs i (i + step) @ drop (nat (i + step)) xs"
      using 1 True by (subst py_range_up.simps) simp
    also have "\<dots> = take (nat step) (drop (nat i) xs) @ drop (nat step) (drop (nat i) xs)"
      using 1(2,3) by (simp only: d py_slice_nonneg)
    finally show ?thesis by (simp only: append_take_drop_id)
  next
    case False
    with 1 show ?thesis
      by (subst py_range_up.simps) simp
  qed
qed

lemma py_range_up_nth:
  "0 < m \<Longrightarrow> k < length (py_range_up i n m) \<Longrightarrow> py_range_up i n m ! k = i + int k * m"
proof (induction i n m arbitrary: k rule: py_range_up.induct)
  case (1 i stop step)
  show ?case
  proof (cases "i < stop")
    case True
    then have eq: "py_range_up i stop step = i # py_range_up (i + step) stop step"
      using 1(2) by (subst py_range_up.simps) simp
    show ?thesis
    proof (cases k)
      case 0
      then show ?thesis by (simp add: eq)
    next
      case (Suc j)
      with 1 True eq show ?thesis by (simp add: algebra_simps)
    qed
  next
    case False
    with 1 show ?thesis by (subst (asm) py_range_up.simps) simp
  qed
qed

lemma py_range_up_length:
  "0 < m \<Longrightarrow> i \<le> n \<Longrightarrow> int (length (py_range_up i n m)) = (n - i + m - 1) div m"
proof (induction i n m rule: py_range_up.induct)
  case (1 i stop step)
  show ?case
  proof (cases "i < stop")
    case True
    note lt = this
    have eq: "py_range_up i stop step = i # py_range_up (i + step) stop step"
      using 1(2) True by (subst py_range_up.simps) simp
    show ?thesis
    proof (cases "i + step \<le> stop")
      case True
      have "(stop - i + step - 1) div step = (stop - (i + step) + step - 1 + step) div step"
        by (simp add: algebra_simps)
      also have "\<dots> = (stop - (i + step) + step - 1) div step + 1"
        using 1(2) by (subst div_add_self2) simp_all
      finally show ?thesis using 1 lt True eq by simp
    next
      case False
      then have e: "py_range_up (i + step) stop step = []"
        by (subst py_range_up.simps) simp
      have "0 \<le> stop - i + step - 1" "stop - i + step - 1 < 2 * step" "step \<le> stop - i + step - 1"
        using lt False 1(2) by simp_all
      then have "(stop - i + step - 1) div step = 1"
        using 1(2) by (intro div_eq_one) simp_all
      then show ?thesis by (simp add: eq e)
    qed
  next
    case False
    with 1 have "i = stop" by simp
    then show ?thesis using 1(2) by (subst py_range_up.simps) simp
  qed
qed

lemma py_range_up_bound:
  "0 < m \<Longrightarrow> x \<in> set (py_range_up i n m) \<Longrightarrow> i \<le> x \<and> x < n"
proof (induction i n m rule: py_range_up.induct)
  case (1 i stop step)
  from 1(3) have "0 < step \<and> i < stop"
    by (subst (asm) py_range_up.simps) (simp split: if_splits)
  with 1 show ?case
    by (subst (asm) (2) py_range_up.simps) (auto split: if_splits)
qed

text \<open>
  Claim C1. For every text \<open>T\<close> and every maximum chunk size \<open>M > 0\<close>, \<open>chunk_text\<close> returns
  (it does not raise) a list of chunks whose concatenation in order is \<open>T\<close>; every chunk
  is non-empty and at most \<open>M\<close> long; chunk number \<open>k\<close> is the slice of \<open>T\<close> that starts at
  \<open>k * M\<close>, so the chunks are consecutive and do not overlap; there are
  \<open>\<lceil>len(T) / M\<rceil>\<close> chunks; and the empty text gives no chunk.
\<close>

theorem chunk_text_partition:
  assumes "0 < M"
  shows "\<exists>cs. chunk_text T M = Inr cs \<and> concat cs = T
           \<and> (\<forall>c \<in> set cs. c \<noteq> [] \<and> int (length c) \<le> M)
           \<and> (\<forall>k < length cs. cs ! k = take (nat M) (drop (k * nat M) T))
           \<and> int (length cs) = \<lceil>real (length T) / real_of_int M\<rceil>
           \<and> (T = [] \<longrightarrow> cs = [])"
proof -
  let ?n = "int (length T)"
  let ?is = "py_range_up 0 ?n M"
  let ?cs = "map (\<lambda>i. py_slice T i (i + M)) ?is"
  have c: "chunk_text T M = Inr ?cs"
    using assms by (simp add: chunk_text_def py_range_def)
  have cat: "concat ?cs = T"
    using concat_slices_up [of M 0 T] assms by simp
  have len: "int (length ?cs) = \<lceil>real (length T) / real_of_int M\<rceil>"
  proof -
    have "int (length ?cs) = (?n + M - 1) div M"
      using py_range_up_length [of M 0 ?n] assms by simp
    also have "\<dots> = - ((- ?n) div M)"
      using assms by (rule ceil_div_int)
    also have "\<dots> = \<lceil>real_of_int ?n / real_of_int M\<rceil>"
      using ceiling_divide_eq_div [of ?n M, where ?'a = real] by simp
    finally show ?thesis by simp
  qed
  have nth: "\<forall>k < length ?cs. ?cs ! k = take (nat M) (drop (k * nat M) T)"
  proof (intro allI impI)
    fix k assume k: "k < length ?cs"
    then have "?is ! k = int k * M"
      using py_range_up_nth [of M k 0 ?n] assms by simp
    then have "?cs ! k = py_slice T (int k * M) (int k * M + M)"
      using k by simp
    also have "\<dots> = take (nat M) (drop (nat (int k * M)) T)"
      using assms by (simp add: py_slice_nonneg)
    also have "nat (int k * M) = k * nat M"
      using assms by (simp add: nat_mult_distrib)
    finally show "?cs ! k = take (nat M) (drop (k * nat M) T)" .
  qed
  have each: "\<forall>c \<in> set ?cs. c \<noteq> [] \<and> int (length c) \<le> M"
  proof
    fix c assume "c \<in> set ?cs"
    then obtain i where i: "i \<in> set ?is" and ci: "c = py_slice T i (i + M)" by auto
    from py_range_up_bound [OF assms i] have b: "0 \<le> i" "i < ?n" by simp_all
    then have "c = take (nat M) (drop (nat i) T)"
      using ci assms by (simp add: py_slice_nonneg)
    with b assms show "c \<noteq> [] \<and> int (length c) \<le> M" by auto
  qed
  have emp: "T = [] \<longrightarrow> ?cs = []"
    by (subst py_range_up.simps) simp
  from c cat each nth len emp show ?thesis by blast
qed

theorem chunk_text_partition_witness:
  "(0::int) < 3
   \<and> chunk_text ''abcdefg'' 3 = Inr [''abc'', ''def'', ''g'']
   \<and> concat [''abc'', ''def'', ''g''] = ''abcdefg''
   \<and> int (length [''abc'', ''def'', ''g'']) = \<lceil>real (length ''abcdefg'') / real_of_int 3\<rceil>"
proof -
  have e: "chunk_text ''abcdefg'' 3 = Inr [''abc'', ''def'', ''g'']"
    by (simp add: chunk_text_def py_range_def py_range_up.simps py_slice_def py_clamp_def)
  from chunk_text_partition [of 3 "''abcdefg''"]
  obtain cs where cs: "chunk_text ''abcdefg'' 3 = Inr cs" "concat cs = ''abcdefg''"
    "int (length cs) = \<lceil>real (length ''abcdefg'') / real_of_int 3\<rceil>"
    by auto
  from cs(1) e have "cs = [''abc'', ''def'', ''g'']" by simp
  with cs e show ?thesis by simp
qed

section \<open>The embedder\<close>

lemma calls_py_print [simp]: "calls (py_print m s) = calls s"
  by (simp add: py_print_def)

lemma world_py_print [simp]: "world (py_print m s) = world s"
  by (simp add: py_print_def)

lemma stdout_py_print [simp]: "stdout (py_print m s) = stdout s @ [m]"
  by (simp add: py_print_def)

lemma new_calls_append: "calls s' = calls s @ cs \<Longrightarrow> new_calls s s' = cs"
  by (simp add: new_calls_def)

lemma request_eq:
  "f (world s) = (r, w') \<Longrightarrow> request c f s = (r, s\<lparr>world := w', calls := calls s @ [c]\<rparr>)"
  by (simp add: request_def)

lemma get_embedding_cases:
  "get_embedding env text s =
     (case embed_content env ''models/text-embedding-004'' text ''retrieval_document'' (world s) of
        (Inr v, w') \<Rightarrow>
          (Some v, s\<lparr>world := w',
             calls := calls s @ [EmbedContent ''models/text-embedding-004'' text ''retrieval_document'']\<rparr>)
      | (Inl e, w') \<Rightarrow>
          (Some (np_zeros VECTOR_SIZE),
           py_print (EmbeddingError e)
             (s\<lparr>world := w',
                calls := calls s @ [EmbedContent ''models/text-embedding-004'' text ''retrieval_document'']\<rparr>)))"
  by (simp add: get_embedding_def request_def split: prod.splits sum.splits)

text \<open>
  Claim C6. When the embedding call raises, \<open>get_embedding\<close> returns: its value is a
  vector of 768 components, all zero, and the failure is printed.
\<close>

theorem get_embedding_failure_sentinel:
  assumes "fst (embed_content env ''models/text-embedding-004'' text ''retrieval_document'' (world s)) = Inl e"
  shows "\<exists>v s'. get_embedding env text s = (Some v, s')
           \<and> length v = 768 \<and> (\<forall>x \<in> set v. x = 0)
           \<and> stdout s' = stdout s @ [EmbeddingError e]"
  using assms
  by (auto simp: get_embedding_cases np_zeros_def VECTOR_SIZE_def split: prod.splits sum.splits)

theorem get_embedding_failure_sentinel_witness:
  "fst (embed_content offline_services ''models/text-embedding-004'' ''hello'' ''retrieval_document''
          (world initial_state)) = Inl (PyException ''RuntimeError'' ''service unavailable'')
   \<and> fst (get_embedding offline_services ''hello'' initial_state) = Some (replicate 768 0)
   \<and> stdout (snd (get_embedding offline_services ''hello'' initial_state))
       = [EmbeddingError (PyException ''RuntimeError'' ''service unavailable'')]"
proof -
  have h: "fst (embed_content offline_services ''models/text-embedding-004'' ''hello'' ''retrieval_document''
          (world initial_state)) = Inl (PyException ''RuntimeError'' ''service unavailable'')"
    by (simp add: offline_services_def failing_def)
  from get_embedding_failure_sentinel [OF h]
  obtain v s' where r: "get_embedding offline_services ''hello'' initial_state = (Some v, s')"
    "length v = 768" "\<forall>x \<in> set v. x = 0"
    "stdout s' = stdout initial_state @ [EmbeddingError (PyException ''RuntimeError'' ''service unavailable'')]"
    by blast
  from r(2,3) have "v = replicate 768 0"
    by (metis replicate_eqI)
  with r h show ?thesis by (simp add: initial_state_def)
qed

section \<open>The query engine\<close>

lemma search_qdrant_cases:
  "fst (search_qdrant env query top_k s) =
     (case embed_content env ''models/text-embedding-004'' query ''retrieval_document'' (world s) of
        (Inl e, w1) \<Rightarrow> []
      | (Inr v, w1) \<Rightarrow>
          if np_all_zero v then []
          else (case search env COLLECTION_NAME v top_k w1 of
                  (Inl e, w2) \<Rightarrow> []
                | (Inr r, w2) \<Rightarrow> r))"
  by (simp add: search_qdrant_def get_embedding_cases request_def np_zeros_def np_all_zero_def
        VECTOR_SIZE_def list_all_iff split: prod.splits sum.splits)

text \<open>
  Claim C8. \<open>search_qdrant\<close> returns a list on every path (it has no raising path). The list
  is empty when the embedding of the query is all zero, when the embedding call raises
  (the sentinel is all zero) and when the search raises; otherwise it is the answer of the
  store to a search with \<^verbatim>\<open>limit = top_k\<close>, so it has at most \<open>top_k\<close> hits when the
  store honours its limit, 3 when the caller gives no \<open>top_k\<close>.
\<close>

theorem search_qdrant_outcomes:
  fixes env :: "'w services"
  defines "emb \<equiv> (\<lambda>query s. embed_content env ''models/text-embedding-004'' query ''retrieval_document'' (world s))"
  shows "(\<forall>v. fst (emb query s) = Inr v \<and> np_all_zero v \<longrightarrow> fst (search_qdrant env query top_k s) = [])
       \<and> (\<forall>e. fst (emb query s) = Inl e \<longrightarrow> fst (search_qdrant env query top_k s) = [])
       \<and> (\<forall>v e. fst (emb query s) = Inr v
              \<and> fst (search env COLLECTION_NAME v top_k (snd (emb query s))) = Inl e
            \<longrightarrow> fst (search_qdrant env query top_k s) = [])
       \<and> (\<forall>v r. fst (emb query s) = Inr v \<and> \<not> np_all_zero v
              \<and> fst (search env COLLECTION_NAME v top_k (snd (emb query s))) = Inr r
            \<longrightarrow> fst (search_qdrant env query top_k s) = r)
       \<and> (search_honours_limit env \<and> 0 \<le> top_k
            \<longrightarrow> int (length (fst (search_qdrant env query top_k s))) \<le> top_k)
       \<and> (search_honours_limit env
            \<longrightarrow> length (fst (search_qdrant_default env query s)) \<le> 3)"
proof -
  have bound: "int (length (fst (search_qdrant env query k s))) \<le> k"
    if "search_honours_limit env" "0 \<le> k" for k
  proof -
    have "int (length r) \<le> k" if "search env c v k w = (Inr r, w')" for c v w r w'
    proof -
      from that have "fst (search env c v k w) = Inr r" by simp
      with \<open>search_honours_limit env\<close> \<open>0 \<le> k\<close> show ?thesis
        unfolding search_honours_limit_def by blast
    qed
    then show ?thesis
      using \<open>0 \<le> k\<close> by (auto simp: search_qdrant_cases split: prod.splits sum.splits)
  qed
  have "length (fst (search_qdrant_default env query s)) \<le> 3" if "search_honours_limit env"
    using bound [OF that, of 3] by (simp add: search_qdrant_default_def)
  with bound show ?thesis
    unfolding emb_def
    by (auto simp: search_qdrant_cases split: prod.splits sum.splits)
qed

theorem search_qdrant_outcomes_witness:
  "np_all_zero [0, 0]
   \<and> fst (search_qdrant (embedding_services [0, 0]) ''what?'' 3 initial_state) = []
   \<and> fst (search_qdrant offline_services ''what?'' 3 initial_state) = []
   \<and> \<not> np_all_zero [1, 0]
   \<and> fst (search_qdrant (embedding_services [1, 0]) ''what?'' 3 initial_state) = []
   \<and> search_honours_limit (searchable_services [1, 0] four_hits)
   \<and> fst (search_qdrant (searchable_services [1, 0] four_hits) ''what?'' 3 initial_state) = take 3 four_hits
   \<and> length (fst (search_qdrant_default (searchable_services [1, 0] four_hits) ''what?'' initial_state)) \<le> 3"
proof -
  let ?m = "''models/text-embedding-004''" and ?t = "''retrieval_document''"
  have z: "np_all_zero [0, 0]" and nz: "\<not> np_all_zero [1, 0]"
    by (simp_all add: np_all_zero_def)
  have e1: "fst (embed_content (embedding_services [0, 0]) ?m ''what?'' ?t (world initial_state)) = Inr [0, 0]"
    by (simp add: embedding_services_def)
  have e2: "fst (embed_content offline_services ?m ''what?'' ?t (world initial_state))
              = Inl (PyException ''RuntimeError'' ''service unavailable'')"
    by (simp add: offline_services_def failing_def)
  have e3: "fst (embed_content (embedding_services [1, 0]) ?m ''what?'' ?t (world initial_state)) = Inr [1, 0]"
    by (simp add: embedding_services_def)
  have s3: "fst (search (embedding_services [1, 0]) COLLECTION_NAME [1, 0] 3
                  (snd (embed_content (embedding_services [1, 0]) ?m ''what?'' ?t (world initial_state))))
              = Inl (PyException ''RuntimeError'' ''service unavailable'')"
    by (simp add: embedding_services_def offline_services_def failing_def)
  have e4: "fst (embed_content (searchable_services [1, 0] four_hits) ?m ''what?'' ?t (world initial_state)) = Inr [1, 0]"
    by (simp add: searchable_services_def embedding_services_def)
  have s4: "fst (search (searchable_services [1, 0] four_hits) COLLECTION_NAME [1, 0] 3
                  (snd (embed_content (searchable_services [1, 0] four_hits) ?m ''what?'' ?t (world initial_state))))
              = Inr (take 3 four_hits)"
    by (simp add: searchable_services_def)
  have lim: "search_honours_limit (searchable_services [1, 0] four_hits)"
    by (auto simp: search_honours_limit_def searchable_services_def)
  note a = search_qdrant_outcomes [of "embedding_services [0, 0]" "''what?''" initial_state 3]
  note b = search_qdrant_outcomes [of offline_services "''what?''" initial_state 3]
  note c = search_qdrant_outcomes [of "embedding_services [1, 0]" "''what?''" initial_state 3]
  note d = search_qdrant_outcomes [of "searchable_services [1, 0] four_hits" "''what?''" initial_state 3]
  have r1: "fst (search_qdrant (embedding_services [0, 0]) ''what?'' 3 initial_state) = []"
    using a e1 z by blast
  have r2: "fst (search_qdrant offline_services ''what?'' 3 initial_state) = []"
    using b e2 by blast
  have r3: "fst (search_qdrant (embedding_services [1, 0]) ''what?'' 3 initial_state) = []"
    using c e3 s3 by blast
  have r4: "fst (search_qdrant (searchable_services [1, 0] four_hits) ''what?'' 3 initial_state) = take 3 four_hits"
    using d e4 s4 nz by blast
  have r5: "length (fst (search_qdrant_default (searchable_services [1, 0] four_hits) ''what?'' initial_state)) \<le> 3"
    using d lim by blast
  from z nz lim r1 r2 r3 r4 r5 show ?thesis by blast
qed

section \<open>The answer synthesizer\<close>

lemma py_slice_prefix:
  "py_slice xs 0 (numeral k) = take (numeral k) xs"
proof -
  have "take (min (length xs) (numeral k)) xs = take (numeral k) xs"
    by (cases "length xs \<le> numeral k") (simp_all add: min_def)
  then show ?thesis
    by (simp add: py_slice_def py_clamp_def Let_def)
qed

lemma rev_dropWhile_split:
  "xs = rev (dropWhile P (rev xs)) @ rev (takeWhile P (rev xs))"
proof -
  have "rev (rev xs) = rev (takeWhile P (rev xs) @ dropWhile P (rev xs))"
    by (simp only: takeWhile_dropWhile_id)
  then show ?thesis
    by (simp only: rev_rev_ident rev_append)
qed

lemma strip_decompose:
  "\<exists>a b. t = a @ strip t @ b \<and> (\<forall>c \<in> set a. isspace c) \<and> (\<forall>c \<in> set b. isspace c)"
proof -
  let ?l = "dropWhile isspace t"
  have 1: "t = takeWhile isspace t @ ?l" by simp
  have 2: "?l = strip t @ rev (takeWhile isspace (rev ?l))"
    unfolding strip_def by (rule rev_dropWhile_split)
  have 3: "\<forall>c \<in> set (takeWhile isspace t). isspace c"
    by (auto dest: set_takeWhileD)
  have 4: "\<forall>c \<in> set (rev (takeWhile isspace (rev ?l))). isspace c"
    by (auto dest: set_takeWhileD)
  from 1 2 have "t = takeWhile isspace t @ strip t @ rev (takeWhile isspace (rev ?l))"
    by simp
  with 3 4 show ?thesis by blast
qed

lemma strip_ends:
  assumes "strip t \<noteq> []"
  shows "\<not> isspace (hd (strip t)) \<and> \<not> isspace (last (strip t))"
proof -
  let ?l = "dropWhile isspace t"
  let ?r = "dropWhile isspace (rev ?l)"
  have s: "strip t = rev ?r" by (simp add: strip_def)
  with assms have r: "?r \<noteq> []" by simp
  then have "\<not> isspace (hd ?r)" by (rule hd_dropWhile)
  then have last: "\<not> isspace (last (strip t))"
    using r by (simp add: s last_rev)
  have l: "?l \<noteq> []"
  proof
    assume e: "?l = []"
    have "?r = []" unfolding e by simp
    with r show False by (rule notE)
  qed
  then have h: "\<not> isspace (hd ?l)" by (rule hd_dropWhile)
  have "?l = strip t @ rev (takeWhile isspace (rev ?l))"
    unfolding strip_def by (rule rev_dropWhile_split)
  then have "hd ?l = hd (strip t)" using assms by (metis hd_append2)
  with h last show ?thesis by simp
qed

lemma strip_empty:
  assumes "strip t = []"
  shows "\<forall>c \<in> set t. isspace c"
proof -
  from strip_decompose [of t] assms obtain a b where
    "t = a @ b" "\<forall>c \<in> set a. isspace c" "\<forall>c \<in> set b. isspace c"
    by auto
  then show ?thesis by auto
qed

lemma generate_answer_cases:
  "generate_answer env query context s =
     (let p = prompt (take 8000 context) query;
          s0 = s\<lparr>calls := calls s @ [GenerateContent ''gemini-2.5-flash-lite'' p]\<rparr>
      in case generate_content env ''gemini-2.5-flash-lite'' p (world s) of
           (Inl e, w') \<Rightarrow>
             (''An error occurred while generating the answer.'',
              py_print (ErrorGeneratingAnswer e) (s0\<lparr>world := w'\<rparr>))
         | (Inr NoTextAttr, w') \<Rightarrow> (''Could not generate a clear answer.'', s0\<lparr>world := w'\<rparr>)
         | (Inr (TextRaises e), w') \<Rightarrow>
             if is_attribute_error e then (''Could not generate a clear answer.'', s0\<lparr>world := w'\<rparr>)
             else (''An error occurred while generating the answer.'',
                   py_print (ErrorGeneratingAnswer e) (s0\<lparr>world := w'\<rparr>))
         | (Inr (Text t), w') \<Rightarrow>
             (if strip t \<noteq> [] then strip t else ''Could not generate a clear answer.'', s0\<lparr>world := w'\<rparr>))"
  by (simp add: generate_answer_def request_def py_slice_prefix Let_def
        split: prod.splits sum.splits gen_response.splits)

text \<open>
  Claim C9. \<open>generate_answer\<close> sends exactly one request, to the model
  \<^verbatim>\<open>gemini-2.5-flash-lite\<close>, and its text is the template of lines 185-193, written out
  below, with the first 8000 characters of the context and the whole query in their
  places: the 185 characters of the template, at most 8000 of the context, and the query.
  When the response has a text, the answer is that text without the whitespace at its two
  ends, if anything is left of it, and \<^verbatim>\<open>Could not generate a clear answer.\<close> if the text is
  whitespace only. The answer is the same fallback when the response has no text or
  reading the text raises \<^verbatim>\<open>AttributeError\<close>, and nothing is printed then. When the call
  raises, or reading the text raises another exception, the answer is
  \<^verbatim>\<open>An error occurred while generating the answer.\<close> and the exception is printed.
\<close>

theorem generate_answer_outcomes:
  fixes env :: "'w services"
  defines "sent \<equiv> (\<lambda>context query.
             CHR 0x0A # ''Based on the following context, answer the question clearly and precisely.''
             @ CHR 0x0A # ''If the answer is not found in the context, say that the information is not available.''
             @ CHR 0x0A # CHR 0x0A # ''Context:''
             @ CHR 0x0A # take 8000 context
             @ CHR 0x0A # CHR 0x0A # ''Question: '' @ query @ [CHR 0x0A])"
  defines "reply \<equiv> (\<lambda>context query s.
             fst (generate_content env ''gemini-2.5-flash-lite'' (sent context query) (world s)))"
  defines "answer \<equiv> (\<lambda>context query s. fst (generate_answer env query context s))"
  defines "after \<equiv> (\<lambda>context query s. snd (generate_answer env query context s))"
  shows "new_calls s (after context query s) = [GenerateContent ''gemini-2.5-flash-lite'' (sent context query)]
       \<and> length (sent context query) = 185 + min 8000 (length context) + length query
       \<and> (\<forall>t. reply context query s = Inr (Text t) \<and> strip t \<noteq> []
            \<longrightarrow> answer context query s = strip t
                \<and> (\<exists>a b. t = a @ answer context query s @ b
                       \<and> (\<forall>c \<in> set a. isspace c) \<and> (\<forall>c \<in> set b. isspace c))
                \<and> \<not> isspace (hd (answer context query s))
                \<and> \<not> isspace (last (answer context query s))
                \<and> stdout (after context query s) = stdout s)
       \<and> (\<forall>t. reply context query s = Inr (Text t) \<and> strip t = []
            \<longrightarrow> answer context query s = ''Could not generate a clear answer.''
                \<and> (\<forall>c \<in> set t. isspace c)
                \<and> stdout (after context query s) = stdout s)
       \<and> (reply context query s = Inr NoTextAttr
            \<longrightarrow> answer context query s = ''Could not generate a clear answer.''
                \<and> stdout (after context query s) = stdout s)
       \<and> (\<forall>e. reply context query s = Inr (TextRaises e) \<and> is_attribute_error e
            \<longrightarrow> answer context query s = ''Could not generate a clear answer.''
                \<and> stdout (after context query s) = stdout s)
       \<and> (\<forall>e. reply context query s = Inl e
                \<or> (reply context query s = Inr (TextRaises e) \<and> \<not> is_attribute_error e)
            \<longrightarrow> answer context query s = ''An error occurred while generating the answer.''
                \<and> stdout (after context query s) = stdout s @ [ErrorGeneratingAnswer e])"
proof -
  have p: "prompt (take 8000 context) query = sent context query"
    by (simp add: prompt_def sent_def)
  have c: "calls (after context query s)
             = calls s @ [GenerateContent ''gemini-2.5-flash-lite'' (sent context query)]"
    unfolding after_def
    by (simp add: generate_answer_cases p Let_def split: prod.splits sum.splits gen_response.splits)
  have 1: "new_calls s (after context query s) = [GenerateContent ''gemini-2.5-flash-lite'' (sent context query)]"
    using c by (rule new_calls_append)
  have 2: "length (sent context query) = 185 + min 8000 (length context) + length query"
    by (simp add: sent_def)
  have 3: "answer context query s = strip t
           \<and> (\<exists>a b. t = a @ answer context query s @ b
                  \<and> (\<forall>c \<in> set a. isspace c) \<and> (\<forall>c \<in> set b. isspace c))
           \<and> \<not> isspace (hd (answer context query s))
           \<and> \<not> isspace (last (answer context query s))
           \<and> stdout (after context query s) = stdout s"
    if "reply context query s = Inr (Text t)" "strip t \<noteq> []" for t
  proof -
    from that have a: "answer context query s = strip t" and o: "stdout (after context query s) = stdout s"
      unfolding answer_def after_def reply_def
      by (auto simp: generate_answer_cases p Let_def split: prod.splits)
    from a strip_decompose [of t] strip_ends [OF that(2)] o show ?thesis by simp
  qed
  have 4: "answer context query s = ''Could not generate a clear answer.''
           \<and> (\<forall>c \<in> set t. isspace c) \<and> stdout (after context query s) = stdout s"
    if "reply context query s = Inr (Text t)" "strip t = []" for t
    using that strip_empty [OF that(2)]
    unfolding answer_def after_def reply_def
    by (auto simp: generate_answer_cases p Let_def split: prod.splits)
  have 5: "answer context query s = ''Could not generate a clear answer.''
           \<and> stdout (after context query s) = stdout s"
    if "reply context query s = Inr NoTextAttr"
    using that unfolding answer_def after_def reply_def
    by (auto simp: generate_answer_cases p Let_def split: prod.splits)
  have 6: "answer context query s = ''Could not generate a clear answer.''
           \<and> stdout (after context query s) = stdout s"
    if "reply context query s = Inr (TextRaises e)" "is_attribute_error e" for e
    using that unfolding answer_def after_def reply_def
    by (auto simp: generate_answer_cases p Let_def split: prod.splits)
  have 7: "answer context query s = ''An error occurred while generating the answer.''
           \<and> stdout (after context query s) = stdout s @ [ErrorGeneratingAnswer e]"
    if "reply context query s = Inl e
        \<or> (reply context query s = Inr (TextRaises e) \<and> \<not> is_attribute_error e)" for e
    using that unfolding answer_def after_def reply_def
    by (auto simp: generate_answer_cases p Let_def split: prod.splits)
  from 1 2 3 4 5 6 7 show ?thesis by blast
qed

theorem generate_answer_outcomes_witness:
  "new_calls initial_state
     (snd (generate_answer (generating_services (Text (CHR 0x0A # '' Paris. ''))) ''Capital?'' ''France: Paris'' initial_state))
     = [GenerateContent ''gemini-2.5-flash-lite''
          (CHR 0x0A # ''Based on the following context, answer the question clearly and precisely.''
           @ CHR 0x0A # ''If the answer is not found in the context, say that the information is not available.''
           @ CHR 0x0A # CHR 0x0A # ''Context:''
           @ CHR 0x0A # ''France: Paris''
           @ CHR 0x0A # CHR 0x0A # ''Question: Capital?'' @ [CHR 0x0A])]
   \<and> (\<exists>p. new_calls initial_state
            (snd (generate_answer offline_services ''Capital?'' (replicate 8000 (CHR ''a'') @ ''xyz'') initial_state))
            = [GenerateContent ''gemini-2.5-flash-lite'' p] \<and> length p = 185 + 8000 + 8)
   \<and> strip (CHR 0x0A # '' Paris. '') = ''Paris.''
   \<and> fst (generate_answer (generating_services (Text (CHR 0x0A # '' Paris. ''))) ''Capital?'' ''France: Paris'' initial_state)
       = ''Paris.''
   \<and> strip (CHR 0x0A # ''  '') = []
   \<and> fst (generate_answer (generating_services (Text (CHR 0x0A # ''  ''))) ''Capital?'' ''France: Paris'' initial_state)
       = ''Could not generate a clear answer.''
   \<and> fst (generate_answer (generating_services NoTextAttr) ''Capital?'' ''France: Paris'' initial_state)
       = ''Could not generate a clear answer.''
   \<and> is_attribute_error (PyException ''AttributeError'' ''text'')
   \<and> generate_answer (generating_services (TextRaises (PyException ''AttributeError'' ''text'')))
            ''Capital?'' ''France: Paris'' initial_state
       = (''Could not generate a clear answer.'',
          initial_state\<lparr>calls := calls (snd (generate_answer
                (generating_services (TextRaises (PyException ''AttributeError'' ''text'')))
                ''Capital?'' ''France: Paris'' initial_state))\<rparr>)
   \<and> fst (generate_answer offline_services ''Capital?'' ''France: Paris'' initial_state)
       = ''An error occurred while generating the answer.''
   \<and> stdout (snd (generate_answer offline_services ''Capital?'' ''France: Paris'' initial_state))
       = [ErrorGeneratingAnswer (PyException ''RuntimeError'' ''service unavailable'')]
   \<and> \<not> is_attribute_error (PyException ''ValueError'' ''blocked'')
   \<and> fst (generate_answer (generating_services (TextRaises (PyException ''ValueError'' ''blocked'')))
            ''Capital?'' ''France: Paris'' initial_state)
       = ''An error occurred while generating the answer.''
   \<and> stdout (snd (generate_answer (generating_services (TextRaises (PyException ''ValueError'' ''blocked'')))
            ''Capital?'' ''France: Paris'' initial_state))
       = [ErrorGeneratingAnswer (PyException ''ValueError'' ''blocked'')]"
proof -
  let ?q = "''Capital?''" and ?c = "''France: Paris''"
  let ?m = "''gemini-2.5-flash-lite''"
  let ?long = "replicate 8000 (CHR ''a'') @ ''xyz''"
  let ?ae = "PyException ''AttributeError'' ''text''" and ?ve = "PyException ''ValueError'' ''blocked''"
  have st1: "strip (CHR 0x0A # '' Paris. '') = ''Paris.''"
    and st2: "strip (CHR 0x0A # ''  '') = []"
    by (simp_all add: strip_def isspace_def)
  have ne: "strip (CHR 0x0A # '' Paris. '') \<noteq> []"
    by (simp add: st1)
  have ae: "is_attribute_error ?ae" and ve: "\<not> is_attribute_error ?ve"
    by (simp_all add: is_attribute_error_def)
  have g: "fst (generate_content (generating_services r) ?m p (world initial_state)) = Inr r" for r p
    by (simp add: generating_services_def)
  have off: "fst (generate_content offline_services ?m p (world initial_state))
               = Inl (PyException ''RuntimeError'' ''service unavailable'')" for p
    by (simp add: offline_services_def failing_def)
  have s0: "stdout initial_state = []" "world initial_state = ()"
    by (simp_all add: initial_state_def)
  note t1 = generate_answer_outcomes
            [of initial_state "generating_services (Text (CHR 0x0A # '' Paris. ''))" ?q ?c]
  note t2 = generate_answer_outcomes
            [of initial_state "generating_services (Text (CHR 0x0A # ''  ''))" ?q ?c]
  note t3 = generate_answer_outcomes [of initial_state "generating_services NoTextAttr" ?q ?c]
  note t4 = generate_answer_outcomes [of initial_state "generating_services (TextRaises ?ae)" ?q ?c]
  note t5 = generate_answer_outcomes [of initial_state offline_services ?q ?c]
  note t6 = generate_answer_outcomes [of initial_state "generating_services (TextRaises ?ve)" ?q ?c]
  note t7 = generate_answer_outcomes [of initial_state offline_services ?q ?long]
  have r0: "new_calls initial_state
     (snd (generate_answer (generating_services (Text (CHR 0x0A # '' Paris. ''))) ?q ?c initial_state))
     = [GenerateContent ?m
          (CHR 0x0A # ''Based on the following context, answer the question clearly and precisely.''
           @ CHR 0x0A # ''If the answer is not found in the context, say that the information is not available.''
           @ CHR 0x0A # CHR 0x0A # ''Context:''
           @ CHR 0x0A # ''France: Paris''
           @ CHR 0x0A # CHR 0x0A # ''Question: Capital?'' @ [CHR 0x0A])]"
    using t1 by simp
  have r7: "\<exists>p. new_calls initial_state (snd (generate_answer offline_services ?q ?long initial_state))
            = [GenerateContent ?m p] \<and> length p = 185 + 8000 + 8"
    using t7 by simp
  have r1: "fst (generate_answer (generating_services (Text (CHR 0x0A # '' Paris. ''))) ?q ?c initial_state)
              = ''Paris.''"
    using t1 g ne st1 by metis
  have r2: "fst (generate_answer (generating_services (Text (CHR 0x0A # ''  ''))) ?q ?c initial_state)
              = ''Could not generate a clear answer.''"
    using t2 g st2 by blast
  have r3: "fst (generate_answer (generating_services NoTextAttr) ?q ?c initial_state)
              = ''Could not generate a clear answer.''"
    using t3 g by blast
  have r4: "fst (generate_answer (generating_services (TextRaises ?ae)) ?q ?c initial_state)
              = ''Could not generate a clear answer.''
            \<and> stdout (snd (generate_answer (generating_services (TextRaises ?ae)) ?q ?c initial_state))
              = stdout initial_state"
    using t4 g ae by blast
  have r5: "fst (generate_answer offline_services ?q ?c initial_state)
              = ''An error occurred while generating the answer.''
            \<and> stdout (snd (generate_answer offline_services ?q ?c initial_state))
              = stdout initial_state @ [ErrorGeneratingAnswer (PyException ''RuntimeError'' ''service unavailable'')]"
    using t5 off by blast
  have r6: "fst (generate_answer (generating_services (TextRaises ?ve)) ?q ?c initial_state)
              = ''An error occurred while generating the answer.''
            \<and> stdout (snd (generate_answer (generating_services (TextRaises ?ve)) ?q ?c initial_state))
              = stdout initial_state @ [ErrorGeneratingAnswer ?ve]"
    using t6 g ve by blast
  have r4': "generate_answer (generating_services (TextRaises ?ae)) ?q ?c initial_state
       = (''Could not generate a clear answer.'',
          initial_state\<lparr>calls := calls (snd (generate_answer (generating_services (TextRaises ?ae))
                ?q ?c initial_state))\<rparr>)"
  proof -
    obtain a st where e: "generate_answer (generating_services (TextRaises ?ae)) ?q ?c initial_state = (a, st)"
      by fastforce
    with r4 have "a = ''Could not generate a clear answer.''" "stdout st = stdout initial_state" by simp_all
    moreover have "world st = world initial_state" by simp
    ultimately show ?thesis using e by simp
  qed
  from r0 r7 st1 r1 st2 r2 r3 ae r4' r5 ve r6 s0 show ?thesis by simp
qed

section \<open>The trace of the indexer\<close>

lemma request_trace:
  "request c f s = (r, s') \<Longrightarrow> calls s' = calls s @ [c] \<and> stdout s' = stdout s"
  by (auto simp: request_def split: prod.splits)

lemma get_embedding_Some:
  "\<exists>v s'. get_embedding env text s = (Some v, s')
     \<and> calls s' = calls s @ [EmbedContent ''models/text-embedding-004'' text ''retrieval_document'']"
  by (auto simp: get_embedding_cases split: prod.splits sum.splits)

lemma embed_chunks_trace:
  "embed_chunks env chunks acc s = (embs, s') \<Longrightarrow>
     calls s' = calls s @ map (\<lambda>c. EmbedContent ''models/text-embedding-004'' c ''retrieval_document'') chunks
     \<and> length embs = length acc + length chunks"
proof (induction chunks arbitrary: acc s)
  case Nil
  then show ?case by simp
next
  case (Cons c cs)
  obtain v s1 where g: "get_embedding env c s = (Some v, s1)"
    and c1: "calls s1 = calls s @ [EmbedContent ''models/text-embedding-004'' c ''retrieval_document'']"
    using get_embedding_Some [of env c s] by blast
  from Cons.prems g have "embed_chunks env cs (acc @ [v]) s1 = (embs, s')" by simp
  from Cons.IH [OF this] c1 show ?case by simp
qed

lemma download_trace:
  assumes "download env req fh s = Some y"
  shows "\<exists>k. calls (snd y) = calls s @ replicate (Suc k) (NextChunk req)"
proof (rule download.raw_induct
    [where P = "\<lambda>env req fh s y. \<exists>k. calls (snd y) = calls s @ replicate (Suc k) (NextChunk req)",
     OF _ assms])
  fix dl :: "'a services \<Rightarrow> media_request \<Rightarrow> bytes \<Rightarrow> 'a state \<Rightarrow> ((exn + bytes) \<times> 'a state) option"
    and env req fh s y
  assume IH: "\<And>e r f st z. dl e r f st = Some z \<Longrightarrow>
                \<exists>k. calls (snd z) = calls st @ replicate (Suc k) (NextChunk r)"
  assume body: "(case request (NextChunk req) (next_chunk env req) s of
                   (Inl e, s') \<Rightarrow> Some (Inl e, s')
                 | (Inr (data, fin), s') \<Rightarrow>
                     if fin then Some (Inr (fh @ data), s') else dl env req (fh @ data) s') = Some y"
  obtain r s1 where rq: "request (NextChunk req) (next_chunk env req) s = (r, s1)"
    by fastforce
  then have c1: "calls s1 = calls s @ [NextChunk req]"
    by (simp add: request_trace)
  show "\<exists>k. calls (snd y) = calls s @ replicate (Suc k) (NextChunk req)"
  proof (cases r)
    case (Inl e)
    with body rq have "y = (Inl e, s1)" by simp
    with c1 have "calls (snd y) = calls s @ replicate (Suc 0) (NextChunk req)" by simp
    then show ?thesis by blast
  next
    case (Inr p)
    obtain data fin where p: "p = (data, fin)" by (cases p)
    show ?thesis
    proof (cases fin)
      case True
      with body rq Inr p have "y = (Inr (fh @ data), s1)" by simp
      with c1 have "calls (snd y) = calls s @ replicate (Suc 0) (NextChunk req)" by simp
      then show ?thesis by blast
    next
      case False
      with body rq Inr p have "dl env req (fh @ data) s1 = Some y" by simp
      from IH [OF this] obtain k where "calls (snd y) = calls s1 @ replicate (Suc k) (NextChunk req)"
        by blast
      with c1 have "calls (snd y) = calls s @ replicate (Suc (Suc k)) (NextChunk req)" by simp
      then show ?thesis by blast
    qed
  qed
qed

lemma read_file_trace:
  assumes "read_file env file_id mime_type s = Some (content, s')"
  shows "\<exists>k. calls s' = calls s @ replicate (Suc k) (NextChunk (media_request_for file_id mime_type))"
proof -
  let ?req = "media_request_for file_id mime_type"
  from assms obtain r s1 where d: "download env ?req [] s = Some (r, s1)" and c: "calls s' = calls s1"
    by (auto simp: read_file_def Let_def split: option.splits sum.splits)
  from download_trace [OF d] c show ?thesis by simp
qed

lemma download_single_chunk:
  "next_chunk env req (world s) = (Inr (data, True), w') \<Longrightarrow>
     download env req fh s = Some (Inr (fh @ data), s\<lparr>world := w', calls := calls s @ [NextChunk req]\<rparr>)"
  by (subst download.simps) (simp add: request_def)

lemma download_raises:
  "next_chunk env req (world s) = (Inl e, w') \<Longrightarrow>
     download env req fh s = Some (Inl e, s\<lparr>world := w', calls := calls s @ [NextChunk req]\<rparr>)"
  by (subst download.simps) (simp add: request_def)

lemma chunk_text_default: "\<exists>chunks. chunk_text content 30000 = Inr chunks \<and> (content \<noteq> [] \<longrightarrow> chunks \<noteq> [])"
proof -
  have "chunk_text content 30000 = Inr (map (\<lambda>i. py_slice content i (i + 30000)) (py_range_up 0 (int (length content)) 30000))"
    by (simp add: chunk_text_def py_range_def)
  moreover have "content \<noteq> [] \<longrightarrow> py_range_up 0 (int (length content)) 30000 \<noteq> []"
    by (subst py_range_up.simps) simp
  ultimately show ?thesis by simp
qed

lemma process_item_cases:
  assumes "process_item env n idx item s = Some (r, s')"
  shows "(r = Inr () \<and> s' = s \<and> (\<forall>m. item_mimeType item = Some m \<longrightarrow> m \<notin> set allowed_types))
    \<or> (\<exists>m. item_mimeType item = Some m \<and> m \<in> set allowed_types
          \<and> (item_id item = None \<or> item_id item = Some [])
          \<and> r = Inr () \<and> calls s' = calls s)
    \<or> (\<exists>m fid content s2.
          item_mimeType item = Some m \<and> m \<in> set allowed_types
          \<and> item_id item = Some fid \<and> fid \<noteq> []
          \<and> read_file env fid m (py_print (Processing idx n (file_name_of item)) s) = Some (content, s2)
          \<and> ((length content < 20 \<and> r = Inr () \<and> calls s' = calls s2)
             \<or> (20 \<le> length content
                \<and> (\<exists>chunks embs s3.
                      chunk_text content 30000 = Inr chunks
                      \<and> embed_chunks env chunks [] s2 = (embs, s3)
                      \<and> embs \<noteq> []
                      \<and> ((\<exists>e. np_mean_axis0 (float_add env) (float_div env) embs = Inl e \<and> r = Inl e \<and> s' = s3)
                         \<or> (\<exists>avg u s4.
                               np_mean_axis0 (float_add env) (float_div env) embs = Inr avg
                               \<and> request
                                    (Upsert COLLECTION_NAME
                                       [point_struct (py_hash env) fid (file_name_of item) content avg])
                                    (upsert env COLLECTION_NAME
                                       [point_struct (py_hash env) fid (file_name_of item) content avg])
                                    s3 = (u, s4)
                               \<and> calls s' = calls s4
                               \<and> (case u of Inl e \<Rightarrow> r = Inl e \<and> s' = s4
                                   | Inr x \<Rightarrow> r = Inr () \<and> s' = py_print (Processed (file_name_of item)) s4)))))))"
proof (cases "item_mimeType item")
  case None
  with assms show ?thesis by (simp add: process_item_def)
next
  case (Some m)
  note m = this
  show ?thesis
  proof (cases "m \<in> set allowed_types")
    case False
    with assms m show ?thesis by (simp add: process_item_def)
  next
    case True
    note allowed = this
    let ?s1 = "py_print (Processing idx n (file_name_of item)) s"
    show ?thesis
    proof (cases "item_id item = None \<or> item_id item = Some []")
      case True
      with assms m allowed show ?thesis
        by (auto simp: process_item_def Let_def)
    next
      case False
      then obtain fid where fid: "item_id item = Some fid" "fid \<noteq> []" by auto
      from assms m allowed fid
      obtain content s2 where rf: "read_file env fid m ?s1 = Some (content, s2)"
        by (auto simp: process_item_def Let_def split: option.splits)
      show ?thesis
      proof (cases "length content < 20")
        case True
        with assms m allowed fid rf have "r = Inr () \<and> calls s' = calls s2"
          by (auto simp: process_item_def Let_def)
        with m allowed fid rf True show ?thesis by blast
      next
        case False
        then have ne: "content \<noteq> []" by auto
        from chunk_text_default [of content] ne
        obtain chunks where ch: "chunk_text content 30000 = Inr chunks" "chunks \<noteq> []" by blast
        obtain embs s3 where em: "embed_chunks env chunks [] s2 = (embs, s3)" by fastforce
        from embed_chunks_trace [OF em] ch(2) have embs: "embs \<noteq> []" by auto
        let ?pt = "\<lambda>avg. point_struct (py_hash env) fid (file_name_of item) content avg"
        show ?thesis
        proof (cases "np_mean_axis0 (float_add env) (float_div env) embs")
          case (Inl e)
          with assms m allowed fid rf False ch em embs have "r = Inl e \<and> s' = s3"
            by (auto simp: process_item_def Let_def)
          with m allowed fid rf False ch em embs Inl show ?thesis by force
        next
          case (Inr avg)
          obtain u s4 where up: "request (Upsert COLLECTION_NAME [?pt avg])
                      (upsert env COLLECTION_NAME [?pt avg]) s3 = (u, s4)"
            by fastforce
          with assms m allowed fid rf False ch em embs Inr
          have "calls s' = calls s4 \<and> (case u of Inl e \<Rightarrow> r = Inl e \<and> s' = s4
                   | Inr x \<Rightarrow> r = Inr () \<and> s' = py_print (Processed (file_name_of item)) s4)"
            by (auto simp: process_item_def Let_def split: sum.splits)
          with m allowed fid rf False ch em embs Inr up show ?thesis
            by (intro disjI2) (metis not_le)
        qed
      qed
    qed
  qed
qed

lemma request_file_id_media [simp]:
  "request_file_id (media_request_for file_id mime_type) = file_id"
  by (simp add: media_request_for_def)

lemma read_file_drive_services:
  "read_file (indexing_services items content model) file_id mime_type s =
     (case content file_id of
        None \<Rightarrow>
          Some ([], py_print (ErrorReadingFile file_id (PyException ''RuntimeError'' ''service unavailable''))
                     (s\<lparr>calls := calls s @ [NextChunk (media_request_for file_id mime_type)]\<rparr>))
      | Some b \<Rightarrow>
          Some (strip b, s\<lparr>calls := calls s @ [NextChunk (media_request_for file_id mime_type)]\<rparr>))"
proof (cases "content file_id")
  case None
  then have "next_chunk (indexing_services items content model) (media_request_for file_id mime_type) (world s)
               = (Inl (PyException ''RuntimeError'' ''service unavailable''), world s)"
    by (simp add: indexing_services_def drive_services_def failing_def)
  from download_raises [OF this] None show ?thesis
    by (simp add: read_file_def)
next
  case (Some b)
  then have "next_chunk (indexing_services items content model) (media_request_for file_id mime_type) (world s)
               = (Inr (b, True), world s)"
    by (simp add: indexing_services_def drive_services_def)
  from download_single_chunk [OF this] Some show ?thesis
    by (simp add: read_file_def indexing_services_def drive_services_def offline_services_def)
qed

section \<open>The skip rules of the indexer\<close>

text \<open>
  The first two skip rules hold of every candidate file, whatever the services answer:
  when its declared type is absent or outside the allow-list, the indexer sends no request
  for it, so it is not fetched; when the content fetched for it is shorter than 20
  characters, no embedding and no upsert is requested.
\<close>

lemma skip_rules_type_and_length:
  assumes "process_item env n idx item s = Some (r, s')"
  shows "((\<forall>m. item_mimeType item = Some m \<longrightarrow> m \<notin> set allowed_types)
            \<longrightarrow> new_calls s s' = [])
       \<and> (\<forall>m fid content s2.
             item_mimeType item = Some m \<and> item_id item = Some fid
             \<and> read_file env fid m (py_print (Processing idx n (file_name_of item)) s) = Some (content, s2)
             \<and> length content < 20
            \<longrightarrow> (\<forall>c \<in> set (new_calls s s'). \<not> is_embed c \<and> \<not> is_upsert c))"
proof -
  let ?s1 = "py_print (Processing idx n (file_name_of item)) s"
  from process_item_cases [OF assms]
  consider
    (type) "s' = s" "\<forall>m. item_mimeType item = Some m \<longrightarrow> m \<notin> set allowed_types"
  | (noid) m where "item_mimeType item = Some m" "m \<in> set allowed_types"
      "item_id item = None \<or> item_id item = Some []" "calls s' = calls s"
  | (small) m fid content s2 where "item_mimeType item = Some m" "m \<in> set allowed_types"
      "item_id item = Some fid" "read_file env fid m ?s1 = Some (content, s2)"
      "length content < 20" "calls s' = calls s2"
  | (embedded) m fid content s2 chunks embs s3 where "item_mimeType item = Some m" "m \<in> set allowed_types"
      "item_id item = Some fid" "read_file env fid m ?s1 = Some (content, s2)"
      "20 \<le> length content" "chunk_text content 30000 = Inr chunks"
      "embed_chunks env chunks [] s2 = (embs, s3)" "embs \<noteq> []"
      "\<exists>cs. calls s' = calls s3 @ cs"
    by (elim disjE exE conjE) (auto simp: request_trace split: sum.splits)
  then show ?thesis
  proof cases
    case type
    then show ?thesis by (simp add: new_calls_def)
  next
    case noid
    then have "new_calls s s' = []" by (simp add: new_calls_def)
    with noid show ?thesis by auto
  next
    case small
    from read_file_trace [OF small(4)] small(6)
    obtain k where "calls s' = calls s @ replicate (Suc k) (NextChunk (media_request_for fid m))"
      by auto
    then have "new_calls s s' = replicate (Suc k) (NextChunk (media_request_for fid m))"
      by (rule new_calls_append)
    with small show ?thesis by auto
  next
    case embedded
    then show ?thesis by auto
  qed
qed

lemma skip_rules_type_and_length_examples:
  "''image/png'' \<notin> set allowed_types
   \<and> process_item (indexing_services [] (map_of [(''f2'', ''  hi  '')]) (\<lambda>c. None)) 2 1
         (image_file ''f1'' ''cat.png'') initial_state = Some (Inr (), initial_state)
   \<and> new_calls initial_state initial_state = []
   \<and> fst (the (read_file (indexing_services [] (map_of [(''f2'', ''  hi  '')]) (\<lambda>c. None)) ''f2'' ''text/plain''
         (py_print (Processing 2 2 ''note.txt'') initial_state))) = ''hi''
   \<and> (\<exists>s'. process_item (indexing_services [] (map_of [(''f2'', ''  hi  '')]) (\<lambda>c. None)) 2 2
               (text_file ''f2'' ''note.txt'') initial_state = Some (Inr (), s')
          \<and> new_calls initial_state s' = [NextChunk (GetMedia ''f2'')]
          \<and> (\<forall>c \<in> set (new_calls initial_state s'). \<not> is_embed c \<and> \<not> is_upsert c))"
proof -
  let ?E = "indexing_services [] (map_of [(''f2'', ''  hi  '')]) (\<lambda>c. None)"
  let ?s1 = "py_print (Processing 2 2 ''note.txt'') initial_state"
  have t: "''image/png'' \<notin> set allowed_types"
    by (simp add: allowed_types_def)
  have p1: "process_item ?E 2 1 (image_file ''f1'' ''cat.png'') initial_state = Some (Inr (), initial_state)"
    by (simp add: process_item_def image_file_def allowed_types_def)
  have a: "new_calls initial_state initial_state = []"
    using skip_rules_type_and_length [OF p1] t by (simp add: image_file_def)
  have st: "strip ''  hi  '' = ''hi''"
    by (simp add: strip_def isspace_def)
  have rf: "read_file ?E ''f2'' ''text/plain'' ?s1
              = Some (''hi'', ?s1\<lparr>calls := calls ?s1 @ [NextChunk (media_request_for ''f2'' ''text/plain'')]\<rparr>)"
    by (simp add: read_file_drive_services st)
  have mr: "media_request_for ''f2'' ''text/plain'' = GetMedia ''f2''"
    by (simp add: media_request_for_def startswith_def)
  define s' where "s' = py_print (SkippingSmallFile ''note.txt'')
                          (?s1\<lparr>calls := calls ?s1 @ [NextChunk (GetMedia ''f2'')]\<rparr>)"
  have p2: "process_item ?E 2 2 (text_file ''f2'' ''note.txt'') initial_state = Some (Inr (), s')"
    using rf mr
    by (simp add: process_item_def text_file_def allowed_types_def file_name_of_def Let_def s'_def)
  have c2: "calls s' = calls initial_state @ [NextChunk (GetMedia ''f2'')]"
    by (simp add: s'_def)
  have n2: "new_calls initial_state s' = [NextChunk (GetMedia ''f2'')]"
    using c2 by (rule new_calls_append)
  have hyp: "item_mimeType (text_file ''f2'' ''note.txt'') = Some ''text/plain''
      \<and> item_id (text_file ''f2'' ''note.txt'') = Some ''f2''
      \<and> read_file ?E ''f2'' ''text/plain''
           (py_print (Processing 2 2 (file_name_of (text_file ''f2'' ''note.txt''))) initial_state)
          = Some (''hi'', ?s1\<lparr>calls := calls ?s1 @ [NextChunk (media_request_for ''f2'' ''text/plain'')]\<rparr>)
      \<and> length ''hi'' < 20"
    using rf by (simp add: text_file_def file_name_of_def)
  have b: "\<forall>c \<in> set (new_calls initial_state s'). \<not> is_embed c \<and> \<not> is_upsert c"
    using skip_rules_type_and_length [OF p2] hyp by blast
  from t p1 a rf p2 n2 b show ?thesis by auto
qed

section \<open>Running the loop body on examples\<close>

lemma strip_unchanged:
  assumes "t \<noteq> []" "\<not> isspace (hd t)" "\<not> isspace (last t)"
  shows "strip t = t"
proof -
  have 1: "dropWhile isspace t = t"
    using assms(2) by (simp add: dropWhile_eq_self_iff)
  have "\<not> isspace (hd (rev t))"
    using assms(1,3) by (simp add: hd_rev)
  then have "dropWhile isspace (rev t) = rev t"
    by (simp add: dropWhile_eq_self_iff)
  with 1 show ?thesis by (simp add: strip_def)
qed

lemma chunk_text_long_text:
  "chunk_text long_text 30000 = Inr [replicate 30000 (CHR ''a''), replicate 20 (CHR ''b'')]"
  by (simp add: chunk_text_def py_range_def py_range_up.simps py_slice_def py_clamp_def long_text_def)

lemma process_item_upsert_path:
  assumes "item_mimeType item = Some m" "m \<in> set allowed_types"
    and "item_id item = Some fid" "fid \<noteq> []"
    and "read_file env fid m (py_print (Processing idx n (file_name_of item)) s) = Some (content, s2)"
    and "\<not> length content < 20"
    and "chunk_text content 30000 = Inr chunks"
    and "embed_chunks env chunks [] s2 = (embs, s3)" "embs \<noteq> []"
    and "np_mean_axis0 (float_add env) (float_div env) embs = Inr avg"
    and "request (Upsert COLLECTION_NAME [point_struct (py_hash env) fid (file_name_of item) content avg])
           (upsert env COLLECTION_NAME [point_struct (py_hash env) fid (file_name_of item) content avg]) s3
          = (u, s4)"
  shows "process_item env n idx item s =
           Some (case u of Inl e \<Rightarrow> (Inl e, s4)
                 | Inr x \<Rightarrow> (Inr (), py_print (Processed (file_name_of item)) s4))"
  using assms by (simp add: process_item_def Let_def split: sum.splits)

lemma get_embedding_indexing_services:
  "get_embedding (indexing_services items content model) text s =
     (case model text of
        None \<Rightarrow>
          (Some (np_zeros VECTOR_SIZE),
           py_print (EmbeddingError (PyException ''RuntimeError'' ''service unavailable''))
             (s\<lparr>calls := calls s @ [EmbedContent ''models/text-embedding-004'' text ''retrieval_document'']\<rparr>))
      | Some v \<Rightarrow>
          (Some v, s\<lparr>calls := calls s @ [EmbedContent ''models/text-embedding-004'' text ''retrieval_document'']\<rparr>))"
  by (simp add: get_embedding_cases indexing_services_def failing_def split: option.splits)

section \<open>A document whose embedding calls all fail\<close>

lemma chunk_text_single:
  assumes "t \<noteq> []" "length t \<le> 30000"
  shows "chunk_text t 30000 = Inr [t]"
proof -
  have "py_range_up 0 (int (length t)) 30000 = [0]"
    using assms
    by (subst py_range_up.simps, simp, subst py_range_up.simps, simp)
  moreover have "py_slice t 0 30000 = t"
    using assms by (simp add: py_slice_prefix)
  ultimately show ?thesis
    by (simp add: chunk_text_def py_range_def)
qed

lemma np_mean_axis0_zeros:
  assumes "fadd 0 0 = 0" "fdiv 0 (real (Suc k)) = 0"
  shows "np_mean_axis0 fadd fdiv (replicate (Suc k) (replicate n 0)) = Inr (replicate n 0)"
proof -
  have "foldl (np_add fadd) (replicate n 0) (replicate j (replicate n 0)) = replicate n 0" for j
    using assms(1) by (induction j) (simp_all add: np_add_def)
  with assms(2) show ?thesis
    by (simp add: np_mean_axis0_def)
qed

lemma float_ops_indexing_services:
  "float_add (indexing_services items content model) = (\<lambda>x y. x + y)"
  "float_div (indexing_services items content model) = (\<lambda>x y. x / y)"
  by (simp_all add: indexing_services_def drive_services_def offline_services_def)

lemma process_drive_files_listed:
  assumes "files_list env list_files_request (world s) = (Inr resp, w1)"
  shows "process_drive_files env s =
     (let items = listed_files resp
      in case process_items env (length items) 1 items
                (s\<lparr>world := w1, calls := calls s @ [FilesList list_files_request]\<rparr>) of
           None \<Rightarrow> None
         | Some (Inl e, s2) \<Rightarrow> Some (Inl e, py_print (ErrorProcessingFiles e) s2)
         | Some (Inr u, s2) \<Rightarrow> Some (Inr (), s2))"
  using assms by (simp add: process_drive_files_def request_def)

lemma files_list_indexing_services:
  "files_list (indexing_services items content model) list_files_request w =
     (Inr \<lparr>files = Some (take 100 items),
           nextPageToken = (if 100 < length items then Some ''page-2'' else None)\<rparr>, w)"
  by (simp add: indexing_services_def drive_services_def list_files_request_def)

text \<open>
  Claim C3, on the code. One file of an allowed type with 90 characters of content, and an
  embedding service that raises on every call: the pass returns without raising, but it
  does send an upsert for the file, with the all-zero vector of 768 components. The file
  is not skipped: \<open>get_embedding\<close> answers a failure with the zero vector and never with
  \<^verbatim>\<open>None\<close>, so the tests \<^verbatim>\<open>embedding is not None\<close> and \<^verbatim>\<open>not embeddings\<close> never skip.
\<close>

theorem failed_embeddings_are_upserted:
  "map_option fst
     (process_drive_files
        (indexing_services [text_file ''doc1'' ''hello.txt''] (map_of [(''doc1'', hello_text)]) no_model)
        initial_state)
     = Some (Inr ())
   \<and> map_option (calls \<circ> snd)
     (process_drive_files
        (indexing_services [text_file ''doc1'' ''hello.txt''] (map_of [(''doc1'', hello_text)]) no_model)
        initial_state)
     = Some [FilesList list_files_request,
             NextChunk (GetMedia ''doc1''),
             EmbedContent ''models/text-embedding-004'' hello_text ''retrieval_document'',
             Upsert ''drive_docs''
               [\<lparr>point_id = 0, point_vector = replicate 768 0,
                 payload_name = ''hello.txt'', payload_content = hello_text\<rparr>]]"
proof -
  define E where "E = indexing_services [text_file ''doc1'' ''hello.txt''] (map_of [(''doc1'', hello_text)]) no_model"
  let ?item = "text_file ''doc1'' ''hello.txt''"
  let ?emb = "EmbedContent ''models/text-embedding-004'' hello_text ''retrieval_document''"
  define s0 where "s0 = initial_state\<lparr>world := (), calls := calls initial_state @ [FilesList list_files_request]\<rparr>"
  define s1 where "s1 = py_print (Processing (Suc 0) (Suc 0) (file_name_of ?item)) s0"
  define s2 where "s2 = s1\<lparr>calls := calls s1 @ [NextChunk (media_request_for ''doc1'' ''text/plain'')]\<rparr>"
  define s3 where "s3 = py_print (EmbeddingError (PyException ''RuntimeError'' ''service unavailable''))
                          (s2\<lparr>calls := calls s2 @ [?emb]\<rparr>)"
  define p where "p = point_struct (py_hash E) ''doc1'' (file_name_of ?item) hello_text (replicate 768 0)"
  define s4 where "s4 = s3\<lparr>calls := calls s3 @ [Upsert COLLECTION_NAME [p]]\<rparr>"
  define s5 where "s5 = py_print (Processed (file_name_of ?item)) s4"
  have mime: "item_mimeType ?item = Some ''text/plain''" and fid: "item_id ?item = Some ''doc1''"
    by (simp_all add: text_file_def)
  have al: "''text/plain'' \<in> set allowed_types"
    by (simp add: allowed_types_def)
  have ne: "''doc1'' \<noteq> []" by simp
  have st: "strip hello_text = hello_text"
    by (rule strip_unchanged) (simp_all add: hello_text_def isspace_def)
  have rf: "read_file E ''doc1'' ''text/plain'' (py_print (Processing (Suc 0) (Suc 0) (file_name_of ?item)) s0)
              = Some (hello_text, s2)"
    by (simp add: E_def read_file_drive_services st s2_def s1_def)
  have len: "\<not> length hello_text < 20"
    by (simp add: hello_text_def)
  have ch: "chunk_text hello_text 30000 = Inr [hello_text]"
    by (rule chunk_text_single) (simp_all add: hello_text_def)
  have em: "embed_chunks E [hello_text] [] s2 = ([replicate 768 0], s3)"
    by (simp add: E_def get_embedding_indexing_services no_model_def np_zeros_def VECTOR_SIZE_def s3_def)
  have up: "request (Upsert COLLECTION_NAME [point_struct (py_hash E) ''doc1'' (file_name_of ?item) hello_text (replicate 768 0)])
              (upsert E COLLECTION_NAME [point_struct (py_hash E) ''doc1'' (file_name_of ?item) hello_text (replicate 768 0)]) s3
            = (Inr (), s4)"
    by (simp add: E_def request_def indexing_services_def s4_def p_def)
  have mean: "np_mean_axis0 (float_add E) (float_div E) [replicate 768 0] = Inr (replicate 768 0)"
    using np_mean_axis0_zeros [of "float_add E" "float_div E" 0 768]
    by (simp add: E_def float_ops_indexing_services)
  have item: "process_item E (Suc 0) (Suc 0) ?item s0 = Some (Inr (), s5)"
    using process_item_upsert_path [OF mime al fid ne rf len ch em _ mean up]
    by (simp add: s5_def)
  have "files_list E list_files_request (world initial_state)
          = (Inr \<lparr>files = Some [?item], nextPageToken = None\<rparr>, ())"
    by (simp add: E_def files_list_indexing_services)
  from process_drive_files_listed [OF this] item
  have run: "process_drive_files E initial_state = Some (Inr (), s5)"
    by (simp add: s0_def listed_files_def)
  have pv: "p = \<lparr>point_id = 0, point_vector = replicate 768 0,
                 payload_name = ''hello.txt'', payload_content = hello_text\<rparr>"
    by (simp add: p_def point_struct_def compute_point_id_def E_def indexing_services_def
          drive_services_def offline_services_def file_name_of_def text_file_def
          py_slice_prefix hello_text_def)
  have mr: "media_request_for ''doc1'' ''text/plain'' = GetMedia ''doc1''"
    by (simp add: media_request_for_def startswith_def)
  have "calls s5 = [FilesList list_files_request, NextChunk (GetMedia ''doc1''), ?emb,
                    Upsert ''drive_docs'' [p]]"
    by (simp add: s5_def s4_def s3_def s2_def s1_def s0_def initial_state_def mr COLLECTION_NAME_def)
  with run pv show ?thesis
    unfolding E_def by simp
qed

section \<open>The point identifier\<close>

lemma compute_point_id_range:
  "0 \<le> compute_point_id h file_id \<and> compute_point_id h file_id < 10 ^ 18"
  by (simp add: compute_point_id_def)

text \<open>
  Claim C4, on the code. The identifier is \<^verbatim>\<open>abs(hash(file_id)) % 10**18\<close>, a function of
  the file identifier and of the string hash of the running process, which CPython salts
  per process. For the file identifier \<^verbatim>\<open>abc\<close>, the hashes of two processes give two
  different point identifiers.
\<close>

theorem point_id_differs_between_processes:
  "compute_point_id hash_of_process_1 ''abc'' = 667308735975688587
   \<and> compute_point_id hash_of_process_2 ''abc'' = 69345407874332860
   \<and> compute_point_id hash_of_process_1 ''abc'' \<noteq> compute_point_id hash_of_process_2 ''abc''"
  by (simp add: compute_point_id_def hash_of_process_1_def hash_of_process_2_def)

section \<open>The pass over the listing\<close>

lemma process_item_elim [consumes 1, case_names quiet small ragged upsert]:
  assumes "process_item env n idx item s = Some (r, s')"
  obtains
    (quiet) "calls s' = calls s" "\<not> eligible item" "r = Inr ()"
  | (small) m fid content s2 where
      "item_mimeType item = Some m" "m \<in> set allowed_types" "item_id item = Some fid" "fid \<noteq> []"
      "read_file env fid m (py_print (Processing idx n (file_name_of item)) s) = Some (content, s2)"
      "length content < 20" "calls s' = calls s2" "r = Inr ()"
  | (ragged) m fid content s2 chunks embs s3 e where
      "item_mimeType item = Some m" "m \<in> set allowed_types" "item_id item = Some fid" "fid \<noteq> []"
      "read_file env fid m (py_print (Processing idx n (file_name_of item)) s) = Some (content, s2)"
      "20 \<le> length content" "chunk_text content 30000 = Inr chunks"
      "embed_chunks env chunks [] s2 = (embs, s3)" "embs \<noteq> []"
      "np_mean_axis0 (float_add env) (float_div env) embs = Inl e" "r = Inl e" "s' = s3"
  | (upsert) m fid content s2 chunks embs s3 avg u s4 where
      "item_mimeType item = Some m" "m \<in> set allowed_types" "item_id item = Some fid" "fid \<noteq> []"
      "read_file env fid m (py_print (Processing idx n (file_name_of item)) s) = Some (content, s2)"
      "20 \<le> length content" "chunk_text content 30000 = Inr chunks"
      "embed_chunks env chunks [] s2 = (embs, s3)" "embs \<noteq> []"
      "np_mean_axis0 (float_add env) (float_div env) embs = Inr avg"
      "request (Upsert COLLECTION_NAME [point_struct (py_hash env) fid (file_name_of item) content avg])
         (upsert env COLLECTION_NAME [point_struct (py_hash env) fid (file_name_of item) content avg]) s3
        = (u, s4)"
      "calls s' = calls s4"
      "case u of Inl e \<Rightarrow> r = Inl e \<and> s' = s4
       | Inr x \<Rightarrow> r = Inr () \<and> s' = py_print (Processed (file_name_of item)) s4"
proof -
  from process_item_cases [OF assms]
  consider
    (a) "r = Inr ()" "s' = s" "\<forall>m. item_mimeType item = Some m \<longrightarrow> m \<notin> set allowed_types"
  | (b) m where "item_mimeType item = Some m" "item_id item = None \<or> item_id item = Some []"
      "r = Inr ()" "calls s' = calls s"
  | (c) m fid content s2 where
      "item_mimeType item = Some m" "m \<in> set allowed_types" "item_id item = Some fid" "fid \<noteq> []"
      "read_file env fid m (py_print (Processing idx n (file_name_of item)) s) = Some (content, s2)"
      "length content < 20" "calls s' = calls s2" "r = Inr ()"
  | (d) m fid content s2 chunks embs s3 e where
      "item_mimeType item = Some m" "m \<in> set allowed_types" "item_id item = Some fid" "fid \<noteq> []"
      "read_file env fid m (py_print (Processing idx n (file_name_of item)) s) = Some (content, s2)"
      "20 \<le> length content" "chunk_text content 30000 = Inr chunks"
      "embed_chunks env chunks [] s2 = (embs, s3)" "embs \<noteq> []"
      "np_mean_axis0 (float_add env) (float_div env) embs = Inl e" "r = Inl e" "s' = s3"
  | (e) m fid content s2 chunks embs s3 avg u s4 where
      "item_mimeType item = Some m" "m \<in> set allowed_types" "item_id item = Some fid" "fid \<noteq> []"
      "read_file env fid m (py_print (Processing idx n (file_name_of item)) s) = Some (content, s2)"
      "20 \<le> length content" "chunk_text content 30000 = Inr chunks"
      "embed_chunks env chunks [] s2 = (embs, s3)" "embs \<noteq> []"
      "np_mean_axis0 (float_add env) (float_div env) embs = Inr avg"
      "request (Upsert COLLECTION_NAME [point_struct (py_hash env) fid (file_name_of item) content avg])
         (upsert env COLLECTION_NAME [point_struct (py_hash env) fid (file_name_of item) content avg]) s3
        = (u, s4)"
      "calls s' = calls s4"
      "case u of Inl e \<Rightarrow> r = Inl e \<and> s' = s4
       | Inr x \<Rightarrow> r = Inr () \<and> s' = py_print (Processed (file_name_of item)) s4"
    by (elim disjE exE conjE) blast+
  then show thesis
  proof cases
    case a
    then have "\<not> eligible item" by (auto simp: eligible_def)
    with a quiet show thesis by simp
  next
    case b
    then have "\<not> eligible item" by (auto simp: eligible_def)
    with b quiet show thesis by simp
  next
    case c
    then show thesis by (rule small)
  next
    case d
    then show thesis by (rule ragged)
  next
    case e
    then show thesis by (rule upsert)
  qed
qed

lemma process_item_trace:
  assumes "process_item env n idx item s = Some (r, s')"
  shows "\<exists>cs. calls s' = calls s @ cs
          \<and> (\<forall>c \<in> set cs. \<not> is_list c)
          \<and> (\<forall>req. NextChunk req \<in> set cs \<longrightarrow> item_id item = Some (request_file_id req))
          \<and> length (filter is_upsert cs) \<le> 1
          \<and> (eligible item \<longrightarrow>
                (\<exists>m fid. item_mimeType item = Some m \<and> item_id item = Some fid
                   \<and> NextChunk (media_request_for fid m) \<in> set cs))"
proof -
  let ?s1 = "py_print (Processing idx n (file_name_of item)) s"
  let ?E = "\<lambda>c. EmbedContent ''models/text-embedding-004'' c ''retrieval_document''"
  have fetched: ?thesis
    if m: "item_mimeType item = Some m" and fid: "item_id item = Some fid"
      and rf: "read_file env fid m ?s1 = Some (content, s2)"
      and c: "calls s' = calls s2 @ es" and es: "\<forall>c \<in> set es. \<not> is_list c \<and> \<not> is_fetch c"
      and u: "length (filter is_upsert es) \<le> 1"
    for m fid content s2 es
  proof -
    from read_file_trace [OF rf]
    obtain k where "calls s2 = calls s @ replicate (Suc k) (NextChunk (media_request_for fid m))"
      by auto
    with c
    have c: "calls s' = calls s @ (replicate (Suc k) (NextChunk (media_request_for fid m)) @ es)"
      by simp
    have 1: "\<forall>c \<in> set (replicate (Suc k) (NextChunk (media_request_for fid m)) @ es). \<not> is_list c"
      using es by auto
    have 2: "\<forall>req. NextChunk req \<in> set (replicate (Suc k) (NextChunk (media_request_for fid m)) @ es)
               \<longrightarrow> item_id item = Some (request_file_id req)"
      using fid es by auto
    have 3: "length (filter is_upsert (replicate (Suc k) (NextChunk (media_request_for fid m)) @ es)) \<le> 1"
      using u by simp
    have 4: "NextChunk (media_request_for fid m) \<in> set (replicate (Suc k) (NextChunk (media_request_for fid m)) @ es)"
      by simp
    from c 1 2 3 4 m fid show ?thesis by blast
  qed
  from assms show ?thesis
  proof (cases rule: process_item_elim)
    case quiet
    then show ?thesis by simp
  next
    case (small m fid content s2)
    from fetched [OF small(1,3,5), of "[]"] small(7) show ?thesis by simp
  next
    case (ragged m fid content s2 chunks embs s3 e)
    from embed_chunks_trace [OF ragged(8)] ragged(12)
    have "calls s' = calls s2 @ map ?E chunks" by simp
    from fetched [OF ragged(1,3,5) this] show ?thesis by auto
  next
    case (upsert m fid content s2 chunks embs s3 avg u s4)
    from embed_chunks_trace [OF upsert(8)] request_trace [OF upsert(11)] upsert(12)
    have "calls s' = calls s2 @ (map ?E chunks
              @ [Upsert COLLECTION_NAME [point_struct (py_hash env) fid (file_name_of item) content avg]])"
      by simp
    from fetched [OF upsert(1,3,5) this] show ?thesis by auto
  qed
qed

lemma process_items_trace:
  assumes "process_items env n idx items s = Some (r, s')"
  shows "\<exists>cs. calls s' = calls s @ cs
          \<and> (\<forall>c \<in> set cs. \<not> is_list c)
          \<and> (\<forall>req. NextChunk req \<in> set cs \<longrightarrow>
                (\<exists>item \<in> set items. item_id item = Some (request_file_id req)))
          \<and> length (filter is_upsert cs) \<le> length items
          \<and> ((\<exists>u. r = Inr u) \<longrightarrow>
                (\<forall>item \<in> set items. eligible item \<longrightarrow>
                   (\<exists>m fid. item_mimeType item = Some m \<and> item_id item = Some fid
                      \<and> NextChunk (media_request_for fid m) \<in> set cs)))"
  using assms
proof (induction items arbitrary: idx s)
  case Nil
  then show ?case by simp
next
  case (Cons item items)
  from Cons.prems obtain r1 s1 where p: "process_item env n idx item s = Some (r1, s1)"
    by (auto split: option.splits)
  from process_item_trace [OF p] obtain cs1 where
    c1: "calls s1 = calls s @ cs1" and l1: "\<forall>c \<in> set cs1. \<not> is_list c"
    and f1: "\<forall>req. NextChunk req \<in> set cs1 \<longrightarrow> item_id item = Some (request_file_id req)"
    and u1: "length (filter is_upsert cs1) \<le> 1"
    and e1: "eligible item \<longrightarrow>
                (\<exists>m fid. item_mimeType item = Some m \<and> item_id item = Some fid
                   \<and> NextChunk (media_request_for fid m) \<in> set cs1)"
    by blast
  show ?case
  proof (cases r1)
    case (Inl e)
    with Cons.prems p have "r = Inl e" "s' = s1" by simp_all
    with c1 l1 f1 u1 have "calls s' = calls s @ cs1 \<and> (\<forall>c \<in> set cs1. \<not> is_list c)
          \<and> (\<forall>req. NextChunk req \<in> set cs1 \<longrightarrow>
                (\<exists>it \<in> set (item # items). item_id it = Some (request_file_id req)))
          \<and> length (filter is_upsert cs1) \<le> length (item # items)
          \<and> \<not> (\<exists>u. r = Inr u)"
      by auto
    then show ?thesis by blast
  next
    case (Inr u)
    with Cons.prems p have "process_items env n (Suc idx) items s1 = Some (r, s')" by simp
    from Cons.IH [OF this] obtain cs2 where
      c2: "calls s' = calls s1 @ cs2" and l2: "\<forall>c \<in> set cs2. \<not> is_list c"
      and f2: "\<forall>req. NextChunk req \<in> set cs2 \<longrightarrow>
                (\<exists>it \<in> set items. item_id it = Some (request_file_id req))"
      and u2: "length (filter is_upsert cs2) \<le> length items"
      and e2: "(\<exists>u. r = Inr u) \<longrightarrow>
                (\<forall>it \<in> set items. eligible it \<longrightarrow>
                   (\<exists>m fid. item_mimeType it = Some m \<and> item_id it = Some fid
                      \<and> NextChunk (media_request_for fid m) \<in> set cs2))"
      by blast
    have c: "calls s' = calls s @ (cs1 @ cs2)" using c1 c2 by simp
    have l: "\<forall>c \<in> set (cs1 @ cs2). \<not> is_list c" using l1 l2 by auto
    have f: "\<forall>req. NextChunk req \<in> set (cs1 @ cs2) \<longrightarrow>
                (\<exists>it \<in> set (item # items). item_id it = Some (request_file_id req))"
      using f1 f2 by auto
    have u: "length (filter is_upsert (cs1 @ cs2)) \<le> length (item # items)"
      using u1 u2 by simp
    have e: "(\<exists>u. r = Inr u) \<longrightarrow>
                (\<forall>it \<in> set (item # items). eligible it \<longrightarrow>
                   (\<exists>m fid. item_mimeType it = Some m \<and> item_id it = Some fid
                      \<and> NextChunk (media_request_for fid m) \<in> set (cs1 @ cs2)))"
      using e1 e2 by auto
    from c l f u e show ?thesis by blast
  qed
qed

lemma embed_chunks_sized:
  assumes "embeddings_sized env"
  shows "\<forall>v \<in> set acc. length v = VECTOR_SIZE \<Longrightarrow> embed_chunks env chunks acc s = (embs, s')
           \<Longrightarrow> \<forall>v \<in> set embs. length v = VECTOR_SIZE"
proof (induction chunks arbitrary: acc s)
  case Nil
  then show ?case by simp
next
  case (Cons c cs)
  obtain v s1 where g: "get_embedding env c s = (Some v, s1)"
    using get_embedding_Some [of env c s] by blast
  have "length v = VECTOR_SIZE"
  proof (cases "fst (embed_content env ''models/text-embedding-004'' c ''retrieval_document'' (world s))")
    case (Inl e)
    with g show ?thesis
      by (auto simp: get_embedding_cases np_zeros_def split: prod.splits sum.splits)
  next
    case (Inr w)
    with assms have "length w = VECTOR_SIZE"
      unfolding embeddings_sized_def by blast
    with g Inr show ?thesis
      by (auto simp: get_embedding_cases split: prod.splits sum.splits)
  qed
  with Cons.prems(1) have a: "\<forall>u \<in> set (acc @ [v]). length u = VECTOR_SIZE" by simp
  from Cons.prems(2) g have "embed_chunks env cs (acc @ [v]) s1 = (embs, s')" by simp
  from Cons.IH [OF a this] show ?case .
qed

lemma np_mean_axis0_sized:
  assumes "embs \<noteq> []" "\<forall>v \<in> set embs. length v = d"
  shows "\<exists>avg. np_mean_axis0 (float_add env) (float_div env) embs = Inr avg"
  using assms by (cases embs) (auto simp: np_mean_axis0_def)

lemma read_file_returns:
  assumes "downloads_end env"
  shows "\<exists>content s'. read_file env file_id mime_type s = Some (content, s')"
proof -
  from assms obtain y where "download env (media_request_for file_id mime_type) [] s = Some y"
    unfolding downloads_end_def by blast
  then show ?thesis
    by (cases y) (auto simp: read_file_def split: sum.splits)
qed

lemma process_item_returns:
  assumes "upserts_succeed env" "embeddings_sized env" "downloads_end env"
  shows "\<exists>s'. process_item env n idx item s = Some (Inr (), s')"
proof (cases "eligible item")
  case False
  then show ?thesis
    by (auto simp: process_item_def eligible_def Let_def split: option.splits)
next
  case True
  then obtain m fid where m: "item_mimeType item = Some m" "m \<in> set allowed_types"
    and fid: "item_id item = Some fid" "fid \<noteq> []"
    by (auto simp: eligible_def)
  let ?s1 = "py_print (Processing idx n (file_name_of item)) s"
  from read_file_returns [OF assms(3)]
  obtain content s2 where rf: "read_file env fid m ?s1 = Some (content, s2)" by blast
  show ?thesis
  proof (cases "length content < 20")
    case True
    with m fid rf show ?thesis by (simp add: process_item_def Let_def)
  next
    case False
    then have "content \<noteq> []" by auto
    with chunk_text_default [of content]
    obtain chunks where ch: "chunk_text content 30000 = Inr chunks" "chunks \<noteq> []" by blast
    obtain embs s3 where em: "embed_chunks env chunks [] s2 = (embs, s3)" by fastforce
    from embed_chunks_trace [OF em] ch(2) have ne: "embs \<noteq> []" by auto
    from embed_chunks_sized [OF assms(2) _ em] have "\<forall>v \<in> set embs. length v = VECTOR_SIZE" by simp
    from np_mean_axis0_sized [OF ne this] obtain avg where avg: "np_mean_axis0 (float_add env) (float_div env) embs = Inr avg" ..
    let ?p = "point_struct (py_hash env) fid (file_name_of item) content avg"
    obtain u s4 where up: "request (Upsert COLLECTION_NAME [?p]) (upsert env COLLECTION_NAME [?p]) s3 = (u, s4)"
      by fastforce
    then have "u = fst (upsert env COLLECTION_NAME [?p] (world s3))"
      by (auto simp: request_def split: prod.splits)
    with assms(1) obtain x where "u = Inr x"
      unfolding upserts_succeed_def by metis
    with process_item_upsert_path [OF m fid rf False ch(1) em ne avg up]
    show ?thesis by simp
  qed
qed

lemma process_items_returns:
  assumes "upserts_succeed env" "embeddings_sized env" "downloads_end env"
  shows "\<exists>s'. process_items env n idx items s = Some (Inr (), s')"
proof (induction items arbitrary: idx s)
  case Nil
  show ?case by simp
next
  case (Cons item items)
  from process_item_returns [OF assms] obtain s1 where
    "process_item env n idx item s = Some (Inr (), s1)" by blast
  with Cons.IH [of "Suc idx" s1] show ?case by simp
qed

lemma process_drive_files_returns:
  assumes "fst (files_list env list_files_request (world s)) = Inr resp"
    and "upserts_succeed env" "embeddings_sized env" "downloads_end env"
  shows "\<exists>s'. process_drive_files env s = Some (Inr (), s')"
proof -
  obtain w1 where l: "files_list env list_files_request (world s) = (Inr resp, w1)"
    using assms(1) by (cases "files_list env list_files_request (world s)") simp
  let ?s1 = "s\<lparr>world := w1, calls := calls s @ [FilesList list_files_request]\<rparr>"
  from process_items_returns [OF assms(2-4)] obtain s2 where
    "process_items env (length (listed_files resp)) 1 (listed_files resp) ?s1 = Some (Inr (), s2)"
    by blast
  with process_drive_files_listed [OF l] show ?thesis
    by (simp add: Let_def)
qed

lemma process_drive_files_trace:
  assumes "process_drive_files env s = Some (r, s')"
  shows "\<exists>cs. calls s' = calls s @ FilesList list_files_request # cs
          \<and> (\<forall>c \<in> set cs. \<not> is_list c)
          \<and> (\<forall>resp. fst (files_list env list_files_request (world s)) = Inr resp \<longrightarrow>
                (\<forall>req. NextChunk req \<in> set cs \<longrightarrow>
                   (\<exists>item \<in> set (listed_files resp). item_id item = Some (request_file_id req)))
                \<and> length (filter is_upsert cs) \<le> length (listed_files resp)
                \<and> ((\<exists>u. r = Inr u) \<longrightarrow>
                     (\<forall>item \<in> set (listed_files resp). eligible item \<longrightarrow>
                        (\<exists>m fid. item_mimeType item = Some m \<and> item_id item = Some fid
                           \<and> NextChunk (media_request_for fid m) \<in> set cs))))"
proof -
  obtain x w1 where l: "files_list env list_files_request (world s) = (x, w1)"
    by fastforce
  let ?s1 = "s\<lparr>world := w1, calls := calls s @ [FilesList list_files_request]\<rparr>"
  show ?thesis
  proof (cases x)
    case (Inl e)
    with assms l have "calls s' = calls s @ FilesList list_files_request # []"
      by (auto simp: process_drive_files_def request_def)
    moreover have "\<forall>resp. fst (files_list env list_files_request (world s)) \<noteq> Inr resp"
      using l Inl by simp
    ultimately show ?thesis by (intro exI [of _ "[]"]) simp
  next
    case (Inr resp)
    with l have l': "files_list env list_files_request (world s) = (Inr resp, w1)" by simp
    from assms process_drive_files_listed [OF l']
    obtain r2 s2 where p: "process_items env (length (listed_files resp)) 1 (listed_files resp) ?s1 = Some (r2, s2)"
      and r: "(\<exists>u. r = Inr u) \<longrightarrow> (\<exists>u. r2 = Inr u)" and c: "calls s' = calls s2"
      by (auto simp: Let_def split: option.splits sum.splits)
    from process_items_trace [OF p] obtain cs where
      cs: "calls s2 = calls ?s1 @ cs" "\<forall>c \<in> set cs. \<not> is_list c"
        "\<forall>req. NextChunk req \<in> set cs \<longrightarrow>
            (\<exists>item \<in> set (listed_files resp). item_id item = Some (request_file_id req))"
        "length (filter is_upsert cs) \<le> length (listed_files resp)"
        "(\<exists>u. r2 = Inr u) \<longrightarrow>
            (\<forall>item \<in> set (listed_files resp). eligible item \<longrightarrow>
               (\<exists>m fid. item_mimeType item = Some m \<and> item_id item = Some fid
                  \<and> NextChunk (media_request_for fid m) \<in> set cs))"
      by blast
    from cs(1) c have "calls s' = calls s @ FilesList list_files_request # cs" by simp
    moreover have "resp' = resp" if "fst (files_list env list_files_request (world s)) = Inr resp'" for resp'
      using that l' by simp
    ultimately show ?thesis using cs(2-5) r by (intro exI [of _ cs]) auto
  qed
qed

section \<open>A file without a successful embedding\<close>

text \<open>
  Claim C5, on the code. The third skip rule fails. A file of 30020 characters is cut into
  two chunks; both embedding calls raise, so no chunk has a successful embedding; and the
  loop body still sends an upsert for the file, with the all-zero vector. The list
  \<^verbatim>\<open>embeddings\<close> holds one zero vector for each failed call, so it is never empty and the
  test \<^verbatim>\<open>if not embeddings\<close> never skips a file.
\<close>

theorem file_without_successful_embedding_is_upserted:
  "fst (embed_content (indexing_services [] (map_of [(''f3'', long_text)]) no_model)
          ''models/text-embedding-004'' (replicate 30000 (CHR ''a'')) ''retrieval_document'' ())
     = Inl (PyException ''RuntimeError'' ''service unavailable'')
   \<and> fst (embed_content (indexing_services [] (map_of [(''f3'', long_text)]) no_model)
          ''models/text-embedding-004'' (replicate 20 (CHR ''b'')) ''retrieval_document'' ())
     = Inl (PyException ''RuntimeError'' ''service unavailable'')
   \<and> map_option fst
       (process_item (indexing_services [] (map_of [(''f3'', long_text)]) no_model) 2 2
          (text_file ''f3'' ''long.txt'') initial_state)
     = Some (Inr ())
   \<and> map_option (stdout \<circ> snd)
       (process_item (indexing_services [] (map_of [(''f3'', long_text)]) no_model) 2 2
          (text_file ''f3'' ''long.txt'') initial_state)
     = Some [Processing 2 2 ''long.txt'',
             EmbeddingError (PyException ''RuntimeError'' ''service unavailable''),
             EmbeddingError (PyException ''RuntimeError'' ''service unavailable''),
             Processed ''long.txt'']
   \<and> map_option (calls \<circ> snd)
       (process_item (indexing_services [] (map_of [(''f3'', long_text)]) no_model) 2 2
          (text_file ''f3'' ''long.txt'') initial_state)
     = Some [NextChunk (GetMedia ''f3''),
             EmbedContent ''models/text-embedding-004'' (replicate 30000 (CHR ''a'')) ''retrieval_document'',
             EmbedContent ''models/text-embedding-004'' (replicate 20 (CHR ''b'')) ''retrieval_document'',
             Upsert ''drive_docs''
               [\<lparr>point_id = 0, point_vector = replicate 768 0,
                 payload_name = ''long.txt'', payload_content = replicate 3000 (CHR ''a'')\<rparr>]]"
proof -
  define E where "E = indexing_services [] (map_of [(''f3'', long_text)]) no_model"
  let ?item = "text_file ''f3'' ''long.txt''"
  let ?a = "replicate 30000 (CHR ''a'')" and ?b = "replicate 20 (CHR ''b'')"
  let ?emb = "\<lambda>c. EmbedContent ''models/text-embedding-004'' c ''retrieval_document''"
  let ?err = "PyException ''RuntimeError'' ''service unavailable''"
  define s1 where "s1 = py_print (Processing 2 2 (file_name_of ?item)) initial_state"
  define s2 where "s2 = s1\<lparr>calls := calls s1 @ [NextChunk (media_request_for ''f3'' ''text/plain'')]\<rparr>"
  define s3a where "s3a = py_print (EmbeddingError ?err) (s2\<lparr>calls := calls s2 @ [?emb ?a]\<rparr>)"
  define s3 where "s3 = py_print (EmbeddingError ?err) (s3a\<lparr>calls := calls s3a @ [?emb ?b]\<rparr>)"
  define p where "p = point_struct (py_hash E) ''f3'' (file_name_of ?item) long_text (replicate 768 0)"
  define s4 where "s4 = s3\<lparr>calls := calls s3 @ [Upsert COLLECTION_NAME [p]]\<rparr>"
  define s5 where "s5 = py_print (Processed (file_name_of ?item)) s4"
  have fails: "fst (embed_content E ''models/text-embedding-004'' c ''retrieval_document'' ()) = Inl ?err" for c
    by (simp add: E_def indexing_services_def no_model_def failing_def)
  have mime: "item_mimeType ?item = Some ''text/plain''" and fid: "item_id ?item = Some ''f3''"
    by (simp_all add: text_file_def)
  have al: "''text/plain'' \<in> set allowed_types"
    by (simp add: allowed_types_def)
  have ne: "''f3'' \<noteq> []" by simp
  have st: "strip long_text = long_text"
    by (rule strip_unchanged) (simp_all add: long_text_def isspace_def)
  have rf: "read_file E ''f3'' ''text/plain'' (py_print (Processing 2 2 (file_name_of ?item)) initial_state)
              = Some (long_text, s2)"
    by (simp add: E_def read_file_drive_services st s2_def s1_def)
  have len: "\<not> length long_text < 20"
    by (simp add: long_text_def)
  have em: "embed_chunks E [?a, ?b] [] s2 = ([replicate 768 0, replicate 768 0], s3)"
    by (simp add: E_def get_embedding_indexing_services no_model_def np_zeros_def VECTOR_SIZE_def
          s3_def s3a_def)
  have mean: "np_mean_axis0 (float_add E) (float_div E) [replicate 768 0, replicate 768 0]
                = Inr (replicate 768 0)"
    using np_mean_axis0_zeros [of "float_add E" "float_div E" 1 768]
    by (simp add: E_def float_ops_indexing_services)
  have up: "request (Upsert COLLECTION_NAME [point_struct (py_hash E) ''f3'' (file_name_of ?item) long_text (replicate 768 0)])
              (upsert E COLLECTION_NAME [point_struct (py_hash E) ''f3'' (file_name_of ?item) long_text (replicate 768 0)]) s3
            = (Inr (), s4)"
    by (simp add: E_def request_def indexing_services_def s4_def p_def)
  have run: "process_item E 2 2 ?item initial_state = Some (Inr (), s5)"
    using process_item_upsert_path [OF mime al fid ne rf len chunk_text_long_text em _ mean up]
    by (simp add: s5_def)
  have pv: "p = \<lparr>point_id = 0, point_vector = replicate 768 0,
                 payload_name = ''long.txt'', payload_content = replicate 3000 (CHR ''a'')\<rparr>"
    by (simp add: p_def point_struct_def compute_point_id_def E_def indexing_services_def
          drive_services_def offline_services_def file_name_of_def text_file_def
          py_slice_prefix long_text_def)
  have mr: "media_request_for ''f3'' ''text/plain'' = GetMedia ''f3''"
    by (simp add: media_request_for_def startswith_def)
  have nm: "file_name_of ?item = ''long.txt''"
    by (simp add: file_name_of_def text_file_def)
  have c: "calls s5 = [NextChunk (GetMedia ''f3''), ?emb ?a, ?emb ?b, Upsert ''drive_docs'' [p]]"
    by (simp add: s5_def s4_def s3_def s3a_def s2_def s1_def initial_state_def mr COLLECTION_NAME_def)
  have o: "stdout s5 = [Processing 2 2 ''long.txt'', EmbeddingError ?err, EmbeddingError ?err,
                        Processed ''long.txt'']"
    by (simp add: s5_def s4_def s3_def s3a_def s2_def s1_def initial_state_def nm)
  from fails run c o pv show ?thesis
    unfolding E_def by simp
qed

section \<open>One page of the listing\<close>

lemma downloads_end_indexing_services:
  "downloads_end (indexing_services items content model)"
  unfolding downloads_end_def
proof (intro allI)
  fix req fh and s :: "unit state"
  let ?E = "indexing_services items content model"
  show "download ?E req fh s \<noteq> None"
  proof (cases "content (request_file_id req)")
    case None
    then have "next_chunk ?E req (world s) = (Inl (PyException ''RuntimeError'' ''service unavailable''), world s)"
      by (simp add: indexing_services_def drive_services_def failing_def)
    from download_raises [OF this] show ?thesis by simp
  next
    case (Some b)
    then have "next_chunk ?E req (world s) = (Inr (b, True), world s)"
      by (simp add: indexing_services_def drive_services_def)
    from download_single_chunk [OF this] show ?thesis by simp
  qed
qed

lemma upserts_succeed_indexing_services:
  "upserts_succeed (indexing_services items content model)"
  by (simp add: upserts_succeed_def indexing_services_def)

text \<open>
  Claim C10. A pass sends exactly one listing request, the first request of the pass: for
  the files that are not trashed, with a page size of 100 and without page token. When
  the listing answers, every download of the pass is for a file of that one response,
  there are no more upserts than files in it (at most 100 when the storage honours the
  page size), and a pass that returns normally has fetched every eligible file of the
  response. So a file that is not in the first page is never fetched, embedded or
  upserted.
\<close>

theorem single_page_listing:
  assumes "process_drive_files env s = Some (r, s')"
  shows "filter is_list (new_calls s s')
           = [FilesList \<lparr>pageSize = 100, fieldMask = ''files(id, name, mimeType)'',
                         q = ''trashed=false'', pageToken = None\<rparr>]
       \<and> hd (new_calls s s')
           = FilesList \<lparr>pageSize = 100, fieldMask = ''files(id, name, mimeType)'',
                        q = ''trashed=false'', pageToken = None\<rparr>
       \<and> (\<forall>resp. fst (files_list env
                          \<lparr>pageSize = 100, fieldMask = ''files(id, name, mimeType)'',
                           q = ''trashed=false'', pageToken = None\<rparr> (world s)) = Inr resp \<longrightarrow>
             (\<forall>req. NextChunk req \<in> set (new_calls s s') \<longrightarrow>
                (\<exists>item \<in> set (listed_files resp). item_id item = Some (request_file_id req)))
             \<and> length (filter is_upsert (new_calls s s')) \<le> length (listed_files resp)
             \<and> (length (listed_files resp) \<le> 100 \<longrightarrow>
                  length (filter is_upsert (new_calls s s')) \<le> 100)
             \<and> ((\<exists>u. r = Inr u) \<longrightarrow>
                  (\<forall>item \<in> set (listed_files resp). eligible item \<longrightarrow>
                     (\<exists>m fid. item_mimeType item = Some m \<and> item_id item = Some fid
                        \<and> NextChunk (media_request_for fid m) \<in> set (new_calls s s')))))"
proof -
  have lr: "list_files_request = \<lparr>pageSize = 100, fieldMask = ''files(id, name, mimeType)'',
                                   q = ''trashed=false'', pageToken = None\<rparr>"
    by (simp add: list_files_request_def)
  from process_drive_files_trace [OF assms] obtain cs where
    c: "calls s' = calls s @ FilesList list_files_request # cs"
    and l: "\<forall>c \<in> set cs. \<not> is_list c"
    and f: "\<forall>resp. fst (files_list env list_files_request (world s)) = Inr resp \<longrightarrow>
                (\<forall>req. NextChunk req \<in> set cs \<longrightarrow>
                   (\<exists>item \<in> set (listed_files resp). item_id item = Some (request_file_id req)))
                \<and> length (filter is_upsert cs) \<le> length (listed_files resp)
                \<and> ((\<exists>u. r = Inr u) \<longrightarrow>
                     (\<forall>item \<in> set (listed_files resp). eligible item \<longrightarrow>
                        (\<exists>m fid. item_mimeType item = Some m \<and> item_id item = Some fid
                           \<and> NextChunk (media_request_for fid m) \<in> set cs)))"
    by blast
  from c have n: "new_calls s s' = FilesList list_files_request # cs"
    by (rule new_calls_append)
  have 1: "filter is_list (new_calls s s') = [FilesList list_files_request]"
    using l by (simp add: n filter_empty_conv)
  have 2: "hd (new_calls s s') = FilesList list_files_request"
    by (simp add: n)
  have 3: "(\<forall>req. NextChunk req \<in> set (new_calls s s') \<longrightarrow>
                (\<exists>item \<in> set (listed_files resp). item_id item = Some (request_file_id req)))
             \<and> length (filter is_upsert (new_calls s s')) \<le> length (listed_files resp)
             \<and> (length (listed_files resp) \<le> 100 \<longrightarrow>
                  length (filter is_upsert (new_calls s s')) \<le> 100)
             \<and> ((\<exists>u. r = Inr u) \<longrightarrow>
                  (\<forall>item \<in> set (listed_files resp). eligible item \<longrightarrow>
                     (\<exists>m fid. item_mimeType item = Some m \<and> item_id item = Some fid
                        \<and> NextChunk (media_request_for fid m) \<in> set (new_calls s s'))))"
    if "fst (files_list env list_files_request (world s)) = Inr resp" for resp
  proof -
    from f that have
      a: "\<forall>req. NextChunk req \<in> set cs \<longrightarrow>
            (\<exists>item \<in> set (listed_files resp). item_id item = Some (request_file_id req))"
      and b: "length (filter is_upsert cs) \<le> length (listed_files resp)"
      and d: "(\<exists>u. r = Inr u) \<longrightarrow>
                (\<forall>item \<in> set (listed_files resp). eligible item \<longrightarrow>
                   (\<exists>m fid. item_mimeType item = Some m \<and> item_id item = Some fid
                      \<and> NextChunk (media_request_for fid m) \<in> set cs))"
      by blast+
    have a': "\<forall>req. NextChunk req \<in> set (new_calls s s') \<longrightarrow>
            (\<exists>item \<in> set (listed_files resp). item_id item = Some (request_file_id req))"
      using a by (simp add: n)
    have b': "length (filter is_upsert (new_calls s s')) \<le> length (listed_files resp)"
      using b by (simp add: n)
    have d': "(\<exists>u. r = Inr u) \<longrightarrow>
                (\<forall>item \<in> set (listed_files resp). eligible item \<longrightarrow>
                   (\<exists>m fid. item_mimeType item = Some m \<and> item_id item = Some fid
                      \<and> NextChunk (media_request_for fid m) \<in> set (new_calls s s')))"
      using d by (simp add: n)
    from a' b' d' show ?thesis by auto
  qed
  from 1 2 3 show ?thesis
    unfolding lr by blast
qed

theorem single_page_listing_witness:
  "length big_account = 101
   \<and> eligible (text_file ''z'' ''z.txt'')
   \<and> fst (files_list (indexing_services big_account (map_of [(''a'', hello_text), (''z'', hello_text)]) no_model)
            \<lparr>pageSize = 100, fieldMask = ''files(id, name, mimeType)'',
             q = ''trashed=false'', pageToken = None\<rparr> (world initial_state))
       = Inr \<lparr>files = Some (replicate 100 (text_file ''a'' ''a.txt'')), nextPageToken = Some ''page-2''\<rparr>
   \<and> (\<exists>s'. process_drive_files
               (indexing_services big_account (map_of [(''a'', hello_text), (''z'', hello_text)]) no_model)
               initial_state = Some (Inr (), s')
          \<and> filter is_list (new_calls initial_state s')
              = [FilesList \<lparr>pageSize = 100, fieldMask = ''files(id, name, mimeType)'',
                            q = ''trashed=false'', pageToken = None\<rparr>]
          \<and> NextChunk (GetMedia ''a'') \<in> set (new_calls initial_state s')
          \<and> NextChunk (GetMedia ''z'') \<notin> set (new_calls initial_state s')
          \<and> length (filter is_upsert (new_calls initial_state s')) \<le> 100)"
proof -
  define E where "E = indexing_services big_account (map_of [(''a'', hello_text), (''z'', hello_text)]) no_model"
  define resp where "resp = \<lparr>files = Some (replicate 100 (text_file ''a'' ''a.txt'')),
                               nextPageToken = Some ''page-2''\<rparr>"
  let ?req = "\<lparr>pageSize = 100, fieldMask = ''files(id, name, mimeType)'',
               q = ''trashed=false'', pageToken = None\<rparr>"
  have lr: "list_files_request = ?req"
    by (simp add: list_files_request_def)
  have len: "length big_account = 101"
    by (simp add: big_account_def)
  have al: "''text/plain'' \<in> set allowed_types"
    by (simp add: allowed_types_def)
  have elz: "eligible (text_file ''z'' ''z.txt'')" and ela: "eligible (text_file ''a'' ''a.txt'')"
    using al by (simp_all add: eligible_def text_file_def)
  have r: "fst (files_list E list_files_request (world initial_state)) = Inr resp"
    by (simp add: E_def resp_def files_list_indexing_services big_account_def)
  have sized: "embeddings_sized E"
    by (simp add: embeddings_sized_def E_def indexing_services_def no_model_def failing_def)
  have ups: "upserts_succeed E" and dls: "downloads_end E"
    unfolding E_def
    by (rule upserts_succeed_indexing_services, rule downloads_end_indexing_services)
  from process_drive_files_returns [OF r ups sized dls]
  obtain s' where run: "process_drive_files E initial_state = Some (Inr (), s')"
    by blast
  have lf: "listed_files resp = replicate 100 (text_file ''a'' ''a.txt'')"
    by (simp add: listed_files_def resp_def)
  have r': "fst (files_list E ?req (world initial_state)) = Inr resp"
    using r by (simp only: lr)
  note t = single_page_listing [OF run]
  from t have 1: "filter is_list (new_calls initial_state s') = [FilesList ?req]"
    by blast
  from t r' have f: "\<forall>req. NextChunk req \<in> set (new_calls initial_state s') \<longrightarrow>
                (\<exists>item \<in> set (listed_files resp). item_id item = Some (request_file_id req))"
    and u: "length (listed_files resp) \<le> 100 \<longrightarrow>
              length (filter is_upsert (new_calls initial_state s')) \<le> 100"
    and g: "(\<exists>u. (Inr () :: exn + unit) = Inr u) \<longrightarrow>
              (\<forall>item \<in> set (listed_files resp). eligible item \<longrightarrow>
                 (\<exists>m fid. item_mimeType item = Some m \<and> item_id item = Some fid
                    \<and> NextChunk (media_request_for fid m) \<in> set (new_calls initial_state s')))"
    by blast+
  have "text_file ''a'' ''a.txt'' \<in> set (listed_files resp)"
    by (simp add: lf)
  with g ela obtain m fid where
    "item_mimeType (text_file ''a'' ''a.txt'') = Some m" "item_id (text_file ''a'' ''a.txt'') = Some fid"
    "NextChunk (media_request_for fid m) \<in> set (new_calls initial_state s')"
    by blast
  moreover have "media_request_for ''a'' ''text/plain'' = GetMedia ''a''"
    by (simp add: media_request_for_def startswith_def)
  ultimately have 2: "NextChunk (GetMedia ''a'') \<in> set (new_calls initial_state s')"
    by (auto simp: text_file_def)
  have 3: "NextChunk (GetMedia ''z'') \<notin> set (new_calls initial_state s')"
  proof
    assume "NextChunk (GetMedia ''z'') \<in> set (new_calls initial_state s')"
    with f obtain item where "item \<in> set (listed_files resp)"
      "item_id item = Some (request_file_id (GetMedia ''z''))"
      by blast
    then have "item = text_file ''a'' ''a.txt''" "item_id item = Some ''z''"
      by (simp_all add: lf)
    then show False by (simp add: text_file_def)
  qed
  from u have 4: "length (filter is_upsert (new_calls initial_state s')) \<le> 100"
    by (simp add: lf)
  from len elz r' run 1 2 3 4 show ?thesis
    unfolding E_def resp_def by blast
qed

section \<open>Failures of single files\<close>



lemma process_item_upsert_raises:
  assumes "process_item env n idx item s = Some (r, s')"
    and "Upsert c ps \<in> set (new_calls s s')"
    and "fst (upsert env c ps w) = Inl e" "\<forall>w'. fst (upsert env c ps w') = fst (upsert env c ps w)"
  shows "r = Inl e"
  using assms(1)
proof (cases rule: process_item_elim)
  case quiet
  with assms(2) show ?thesis by (simp add: new_calls_def)
next
  case (small m fid content s2)
  from read_file_trace [OF small(5)] small(7)
  obtain k where "calls s' = calls s @ replicate (Suc k) (NextChunk (media_request_for fid m))"
    by auto
  then have "new_calls s s' = replicate (Suc k) (NextChunk (media_request_for fid m))"
    by (rule new_calls_append)
  with assms(2) show ?thesis by auto
next
  case (ragged m fid content s2 chunks embs s3 e')
  from read_file_trace [OF ragged(5)]
  obtain k where "calls s2 = calls s @ replicate (Suc k) (NextChunk (media_request_for fid m))"
    by auto
  with embed_chunks_trace [OF ragged(8)] ragged(12)
  have "calls s' = calls s @ (replicate (Suc k) (NextChunk (media_request_for fid m))
          @ map (\<lambda>c. EmbedContent ''models/text-embedding-004'' c ''retrieval_document'') chunks)"
    by simp
  then have "new_calls s s' = replicate (Suc k) (NextChunk (media_request_for fid m))
          @ map (\<lambda>c. EmbedContent ''models/text-embedding-004'' c ''retrieval_document'') chunks"
    by (rule new_calls_append)
  with assms(2) show ?thesis by auto
next
  case (upsert m fid content s2 chunks embs s3 avg u s4)
  let ?p = "point_struct (py_hash env) fid (file_name_of item) content avg"
  from read_file_trace [OF upsert(5)]
  obtain k where "calls s2 = calls s @ replicate (Suc k) (NextChunk (media_request_for fid m))"
    by auto
  with embed_chunks_trace [OF upsert(8)] request_trace [OF upsert(11)] upsert(12)
  have "calls s' = calls s @ (replicate (Suc k) (NextChunk (media_request_for fid m))
          @ map (\<lambda>c. EmbedContent ''models/text-embedding-004'' c ''retrieval_document'') chunks
          @ [Upsert COLLECTION_NAME [?p]])"
    by simp
  then have "new_calls s s' = replicate (Suc k) (NextChunk (media_request_for fid m))
          @ map (\<lambda>c. EmbedContent ''models/text-embedding-004'' c ''retrieval_document'') chunks
          @ [Upsert COLLECTION_NAME [?p]]"
    by (rule new_calls_append)
  with assms(2) have cp: "c = COLLECTION_NAME" "ps = [?p]" by auto
  from upsert(11) have "u = fst (upsert env COLLECTION_NAME [?p] (world s3))"
    by (auto simp: request_def split: prod.splits)
  with assms(3,4) cp have "u = Inl e" by metis
  with upsert(13) show ?thesis by simp
qed




lemma get_embedding_rejecting_store_services:
  "get_embedding (rejecting_store_services items content model) text s
     = get_embedding (indexing_services items content model) text s"
  by (simp add: get_embedding_def rejecting_store_services_def)

lemma embed_chunks_rejecting_store_services:
  "embed_chunks (rejecting_store_services items content model) chunks acc s
     = embed_chunks (indexing_services items content model) chunks acc s"
  by (induction chunks arbitrary: acc s)
     (simp_all add: get_embedding_rejecting_store_services split: prod.splits option.splits)



end
